theory Spec2Isabelle
  imports Main "HOL-Library.Char_ord" "HOL-Library.List_Lexorder" "HOL-Library.AList"
begin

section \<open>JavaScript values used by the voting code\<close>

text \<open>
  A JavaScript \<^verbatim>\<open>Set\<close> holds each element once and iterates in insertion order.
  It is modelled as the type of duplicate-free lists: \<open>elements\<close> is the iteration
  order (what \<^verbatim>\<open>Array.from(set)\<close> returns).
\<close>

typedef 'a jsSet = "{xs :: 'a list. distinct xs}"
  morphisms elements Abs_jsSet
  by (rule exI [of _ "[]"]) simp

setup_lifting type_definition_jsSet

text \<open>\<^verbatim>\<open>new Set()\<close>\<close>

lift_definition Set_empty :: "'a jsSet" is "[]"
  by simp

text \<open>\<^verbatim>\<open>set.has(x)\<close>\<close>

lift_definition Set_has :: "'a jsSet \<Rightarrow> 'a \<Rightarrow> bool" is "\<lambda>xs x. x \<in> set xs" .

text \<open>\<^verbatim>\<open>set.add(x)\<close>: an element already present is not added again.\<close>

lift_definition Set_add :: "'a \<Rightarrow> 'a jsSet \<Rightarrow> 'a jsSet"
  is "\<lambda>x xs. if x \<in> set xs then xs else xs @ [x]"
  by simp

text \<open>\<^verbatim>\<open>set.size\<close>\<close>

lift_definition Set_size :: "'a jsSet \<Rightarrow> int" is "\<lambda>xs. int (length xs)" .

text \<open>\<^verbatim>\<open>new Set(iterable)\<close>: the first occurrence of each element is kept.\<close>

lift_definition Set_of :: "'a list \<Rightarrow> 'a jsSet" is "\<lambda>xs. rev (remdups (rev xs))"
  by simp

text \<open>\<^verbatim>\<open>Array.from(set)\<close>\<close>

definition Array_from :: "'a jsSet \<Rightarrow> 'a list" where
  "Array_from s = elements s"

text \<open>
  A \<^verbatim>\<open>Date\<close> object holds a time value in milliseconds, or is an Invalid Date
  (\<^verbatim>\<open>new Date('garbage')\<close>). Comparisons with an Invalid Date are false, and
  \<^verbatim>\<open>toISOString\<close> raises a RangeError on it.
\<close>

datatype Date = Date int | Invalid_Date

datatype js_exception = RangeError | DOMException | Error string

text \<open>\<^verbatim>\<open>a >= b\<close> and \<^verbatim>\<open>a <= b\<close> on two Date objects.\<close>

fun Date_ge :: "Date \<Rightarrow> Date \<Rightarrow> bool" where
  "Date_ge (Date a) (Date b) = (a \<ge> b)"
| "Date_ge _ _ = False"

fun Date_le :: "Date \<Rightarrow> Date \<Rightarrow> bool" where
  "Date_le (Date a) (Date b) = (a \<le> b)"
| "Date_le _ _ = False"

text \<open>
  \<^verbatim>\<open>date.toISOString()\<close>. The rendering of a time value as ISO-8601 text is the
  platform's; it is the parameter \<open>fmt\<close>.
\<close>

fun toISOString :: "(int \<Rightarrow> string) \<Rightarrow> Date \<Rightarrow> js_exception + string" where
  "toISOString fmt (Date t) = Inr (fmt t)"
| "toISOString fmt Invalid_Date = Inl RangeError"

section \<open>Data model (types/voting.ts, types/contestant.ts, types/errors.ts)\<close>

text \<open>
  The field \<^verbatim>\<open>id\<close> of a session and of a contestant is named \<open>session_id\<close> and
  \<open>contestant_id\<close>; the session's list of contestant ids is \<open>session_contestants\<close>.
\<close>

record VotingSession =
  session_id :: string
  isActive :: bool
  startTime :: Date
  endTime :: Date
  maxVotesPerUser :: int
  session_contestants :: "string list"

record Contestant =
  contestant_id :: string
  name :: string
  imageUrl :: string
  description :: string
  contestant_voteCount :: int
  contestant_isActive :: bool
  category :: "string option"

text \<open>
  \<^verbatim>\<open>UserVoteState\<close> and \<^verbatim>\<open>SerializableUserVoteState\<close> have the same four fields;
  they differ in the type of the voted collection (a Set, or an array) and of the
  timestamp (a Date, or a string).
\<close>

record ('c, 't) VoteState =
  sessionId :: string
  votedContestants :: 'c
  totalVotes :: int
  lastUpdated :: 't

type_synonym UserVoteState = "(string jsSet, Date) VoteState"

type_synonym SerializableUserVoteState = "(string list, string) VoteState"

datatype ErrorType =
  NETWORK_ERROR | VALIDATION_ERROR | STORAGE_ERROR | COMPONENT_ERROR
  | VOTE_ERROR | POLLING_ERROR | SESSION_ERROR

datatype VoteErrorCode =
  ALREADY_VOTED | VOTE_LIMIT_EXCEEDED | VOTING_CLOSED | CONTESTANT_INACTIVE
  | INVALID_CONTESTANT | NETWORK_FAILURE

text \<open>
  The closures stored as \<^verbatim>\<open>retryAction\<close>: the hook's \<^verbatim>\<open>vote\<close> for its
  contestant, the hook's \<^verbatim>\<open>clearError\<close>, and the storage adapter's
  \<^verbatim>\<open>() => setError(null)\<close>.
\<close>

datatype RetryAction = Retry_vote string | Retry_clearError | Retry_setError_null

record AppError =
  type :: ErrorType
  message :: string
  recoverable :: bool
  retryAction :: "RetryAction option"
  details :: "(string \<times> string) list option"

record VoteError = AppError +
  code :: VoteErrorCode
  error_contestantId :: "string option"

section \<open>The voting reducer (contexts/VotingContext.tsx)\<close>

record VotingState =
  loading :: bool
  error :: "AppError option"
  session :: "VotingSession option"
  contestants :: "Contestant list"
  userVoteState :: UserVoteState
  votingWindowActive :: bool

datatype VotingAction =
  SET_LOADING bool
  | SET_ERROR "AppError option"
  | SET_SESSION "VotingSession option"
  | SET_CONTESTANTS "Contestant list"
  | UPDATE_CONTESTANT Contestant
  | SET_USER_VOTE_STATE UserVoteState
  | ADD_VOTE string
  | SET_VOTING_WINDOW_STATUS bool
  | RESET_STATE

text \<open>
  \<^verbatim>\<open>initialState\<close> is a module constant; its timestamp is the time \<open>t0\<close> at which
  the module was loaded.
\<close>

definition initialState :: "int \<Rightarrow> VotingState" where
  "initialState t0 =
     \<lparr>loading = False, error = None, session = None, contestants = [],
      userVoteState =
        \<lparr>sessionId = '''', votedContestants = Set_empty, totalVotes = 0,
         lastUpdated = Date t0\<rparr>,
      votingWindowActive = False\<rparr>"

text \<open>
  The window test of \<^verbatim>\<open>SET_SESSION\<close>:
  \<^verbatim>\<open>payload.isActive && new Date() >= new Date(payload.startTime) && new Date() <= new Date(payload.endTime)\<close>,
  with \<open>now\<close> the reading of the clock.
\<close>

definition isVotingActive :: "int \<Rightarrow> VotingSession option \<Rightarrow> bool" where
  "isVotingActive now payload =
     (case payload of
        None \<Rightarrow> False
      | Some s \<Rightarrow> isActive s \<and> Date_ge (Date now) (startTime s) \<and> Date_le (Date now) (endTime s))"

fun votingReducer :: "int \<Rightarrow> int \<Rightarrow> VotingState \<Rightarrow> VotingAction \<Rightarrow> VotingState" where
  "votingReducer t0 now state (SET_LOADING payload) = state\<lparr>loading := payload\<rparr>"
| "votingReducer t0 now state (SET_ERROR payload) = state\<lparr>error := payload\<rparr>"
| "votingReducer t0 now state (SET_SESSION payload) =
     state\<lparr>session := payload,
           votingWindowActive := isVotingActive now payload,
           userVoteState :=
             (case payload of
                Some s \<Rightarrow> (userVoteState state)\<lparr>sessionId := session_id s\<rparr>
              | None \<Rightarrow> userVoteState state)\<rparr>"
| "votingReducer t0 now state (SET_CONTESTANTS payload) = state\<lparr>contestants := payload\<rparr>"
| "votingReducer t0 now state (UPDATE_CONTESTANT payload) =
     state\<lparr>contestants :=
       map (\<lambda>contestant.
              if contestant_id contestant = contestant_id payload then payload else contestant)
           (contestants state)\<rparr>"
| "votingReducer t0 now state (SET_USER_VOTE_STATE payload) = state\<lparr>userVoteState := payload\<rparr>"
| "votingReducer t0 now state (ADD_VOTE contestantId) =
     state\<lparr>userVoteState :=
       (userVoteState state)
         \<lparr>votedContestants := Set_add contestantId (votedContestants (userVoteState state)),
          totalVotes := totalVotes (userVoteState state) + 1,
          lastUpdated := Date now\<rparr>\<rparr>"
| "votingReducer t0 now state (SET_VOTING_WINDOW_STATUS payload) =
     state\<lparr>votingWindowActive := payload\<rparr>"
| "votingReducer t0 now state RESET_STATE = initialState t0"

subsection \<open>Computed values of the provider\<close>

definition hasVotedFor :: "VotingState \<Rightarrow> string \<Rightarrow> bool" where
  "hasVotedFor state contestantId = Set_has (votedContestants (userVoteState state)) contestantId"

definition canVote :: "VotingState \<Rightarrow> bool" where
  "canVote state =
     (case session state of
        None \<Rightarrow> False
      | Some s \<Rightarrow>
          if \<not> votingWindowActive state then False
          else totalVotes (userVoteState state) < maxVotesPerUser s)"

definition remainingVotes :: "VotingState \<Rightarrow> int" where
  "remainingVotes state =
     (case session state of
        None \<Rightarrow> 0
      | Some s \<Rightarrow> max 0 (maxVotesPerUser s - totalVotes (userVoteState state)))"

subsection \<open>Action creators\<close>

definition setSession :: "int \<Rightarrow> int \<Rightarrow> VotingState \<Rightarrow> VotingSession option \<Rightarrow> VotingState" where
  "setSession t0 now state s = votingReducer t0 now state (SET_SESSION s)"

definition setError :: "int \<Rightarrow> int \<Rightarrow> VotingState \<Rightarrow> AppError option \<Rightarrow> VotingState" where
  "setError t0 now state e = votingReducer t0 now state (SET_ERROR e)"

definition setVotingWindowStatus :: "int \<Rightarrow> int \<Rightarrow> VotingState \<Rightarrow> bool \<Rightarrow> VotingState" where
  "setVotingWindowStatus t0 now state active =
     votingReducer t0 now state (SET_VOTING_WINDOW_STATUS active)"

subsection \<open>addVote\<close>

text \<open>
  The errors \<^verbatim>\<open>addVote\<close> passes to \<^verbatim>\<open>setError\<close>:
  \<^verbatim>\<open>{ type: ErrorType.VOTE_ERROR, message, recoverable }\<close>, with no retry action.
\<close>

definition vote_error :: "string \<Rightarrow> bool \<Rightarrow> AppError" where
  "vote_error msg r =
     \<lparr>type = VOTE_ERROR, message = msg, recoverable = r, retryAction = None, details = None\<rparr>"

text \<open>The argument of \<^verbatim>\<open>mockDataService.submitVote\<close>.\<close>

record VoteRequest =
  request_contestantId :: string
  request_sessionId :: string
  request_userId :: string

text \<open>
  What awaiting the submission gives: the promise resolves, or the \<^verbatim>\<open>catch\<close> block
  receives an \<^verbatim>\<open>Error\<close> with a message, or something that is not an \<^verbatim>\<open>Error\<close>.
\<close>

datatype SubmitOutcome = Resolved | Threw_Error string | Threw_other

text \<open>
  \<^verbatim>\<open>addVote\<close> is an async function. \<open>addVote_start\<close> is its synchronous part, up
  to the \<^verbatim>\<open>await\<close>: the two validations, and the request it is about to submit
  (\<open>None\<close> when it returned early). \<open>addVote_finish\<close> is the continuation, run when
  the submission settles, on the state the reducer holds at that time. \<open>addVote\<close> runs
  both with nothing in between; it returns the new state and the request it submitted, if
  any. The submission client is the parameter \<open>submitVote\<close>.
\<close>

definition addVote_start ::
  "int \<Rightarrow> int \<Rightarrow> VotingState \<Rightarrow> string \<Rightarrow> VotingState \<times> VoteRequest option" where
  "addVote_start t0 now state contestantId =
     (if Set_has (votedContestants (userVoteState state)) contestantId then
        (setError t0 now state
           (Some (vote_error ''You have already voted for this contestant'' False)), None)
      else if \<not> canVote state then
        (setError t0 now state (Some (vote_error ''You have reached your voting limit'' False)),
         None)
      else
        (state,
         Some \<lparr>request_contestantId = contestantId,
               request_sessionId = (case session state of Some s \<Rightarrow> session_id s | None \<Rightarrow> []),
               request_userId = ''anonymous''\<rparr>))"

definition addVote_finish ::
  "int \<Rightarrow> int \<Rightarrow> VotingState \<Rightarrow> string \<Rightarrow> SubmitOutcome \<Rightarrow> VotingState" where
  "addVote_finish t0 now state contestantId outcome =
     (case outcome of
        Resolved \<Rightarrow> votingReducer t0 now state (ADD_VOTE contestantId)
      | Threw_Error msg \<Rightarrow> setError t0 now state (Some (vote_error msg True))
      | Threw_other \<Rightarrow> setError t0 now state (Some (vote_error ''Failed to submit vote'' True)))"

definition addVote ::
  "int \<Rightarrow> int \<Rightarrow> (VoteRequest \<Rightarrow> SubmitOutcome) \<Rightarrow> VotingState \<Rightarrow> string
     \<Rightarrow> VotingState \<times> VoteRequest option" where
  "addVote t0 now submitVote state contestantId =
     (case addVote_start t0 now state contestantId of
        (state', None) \<Rightarrow> (state', None)
      | (state', Some request) \<Rightarrow>
          (addVote_finish t0 now state' contestantId (submitVote request), Some request))"

definition resetState :: "int \<Rightarrow> int \<Rightarrow> VotingState \<Rightarrow> VotingState" where
  "resetState t0 now state = votingReducer t0 now state RESET_STATE"

section \<open>Properties of addVote\<close>

lemma addVote_already_voted:
  "hasVotedFor state c \<Longrightarrow>
   addVote t0 now submitVote state c =
     (state\<lparr>error := Some (vote_error ''You have already voted for this contestant'' False)\<rparr>,
      None)"
  by (simp add: addVote_def addVote_start_def hasVotedFor_def setError_def)

lemma addVote_cannot_vote:
  "\<not> hasVotedFor state c \<Longrightarrow> \<not> canVote state \<Longrightarrow>
   addVote t0 now submitVote state c =
     (state\<lparr>error := Some (vote_error ''You have reached your voting limit'' False)\<rparr>, None)"
  by (simp add: addVote_def addVote_start_def hasVotedFor_def setError_def)

lemma addVote_resolved:
  "\<not> hasVotedFor state c \<Longrightarrow> canVote state \<Longrightarrow> submitVote
     \<lparr>request_contestantId = c,
      request_sessionId = (case session state of Some s \<Rightarrow> session_id s | None \<Rightarrow> []),
      request_userId = ''anonymous''\<rparr> = Resolved \<Longrightarrow>
   fst (addVote t0 now submitVote state c) = votingReducer t0 now state (ADD_VOTE c)"
  by (simp add: addVote_def addVote_start_def addVote_finish_def hasVotedFor_def)

lemma hasVotedFor_set_error [simp]: "hasVotedFor (state\<lparr>error := e\<rparr>) c = hasVotedFor state c"
  by (simp add: hasVotedFor_def)

lemma canVote_set_error [simp]: "canVote (state\<lparr>error := e\<rparr>) = canVote state"
  by (simp add: canVote_def split: option.splits)

text \<open>
  Claim C3. For every contestant id \<open>c\<close> already in the voted set, \<open>addVote\<close> fails
  fast with the already-voted error: the store's state is unchanged but for the error
  field, and no request is submitted. The contestant is still in the voted set
  afterwards, so the same holds for every repeat call: however often the call is
  repeated, the state is the original one with the already-voted error. Only
  \<open>resetState\<close> ends this: after it the contestant is no longer in the voted set.
\<close>

theorem addVote_AlreadyVoted_no_change:
  assumes "hasVotedFor state c"
  shows "addVote t0 now submitVote state c =
           (state\<lparr>error := Some (vote_error ''You have already voted for this contestant'' False)\<rparr>,
            None)
         \<and> hasVotedFor (fst (addVote t0 now submitVote state c)) c
         \<and> userVoteState (fst (addVote t0 now submitVote state c)) = userVoteState state
         \<and> (\<forall>n. ((\<lambda>s. fst (addVote t0 now submitVote s c)) ^^ Suc n) state =
                  state\<lparr>error :=
                    Some (vote_error ''You have already voted for this contestant'' False)\<rparr>
                \<and> snd (addVote t0 now submitVote
                         (((\<lambda>s. fst (addVote t0 now submitVote s c)) ^^ n) state) c) = None)
         \<and> \<not> hasVotedFor (resetState t0 now state) c"
proof -
  let ?e = "Some (vote_error ''You have already voted for this contestant'' False)"
  let ?step = "\<lambda>s. fst (addVote t0 now submitVote s c)"
  have first: "addVote t0 now submitVote state c = (state\<lparr>error := ?e\<rparr>, None)"
    using assms by (rule addVote_already_voted)
  have again: "(?step ^^ Suc n) state = state\<lparr>error := ?e\<rparr>" for n
  proof (induction n)
    case 0
    show ?case using first by simp
  next
    case (Suc n)
    have "hasVotedFor (state\<lparr>error := ?e\<rparr>) c" using assms by simp
    then have "addVote t0 now submitVote (state\<lparr>error := ?e\<rparr>) c =
                 (state\<lparr>error := ?e\<rparr>\<lparr>error := ?e\<rparr>, None)"
      by (rule addVote_already_voted)
    with Suc show ?case by simp
  qed
  have none: "snd (addVote t0 now submitVote ((?step ^^ n) state) c) = None" for n
  proof (cases n)
    case 0
    then show ?thesis using first by simp
  next
    case (Suc m)
    have "hasVotedFor (state\<lparr>error := ?e\<rparr>) c" using assms by simp
    then have "addVote t0 now submitVote (state\<lparr>error := ?e\<rparr>) c =
                 (state\<lparr>error := ?e\<rparr>\<lparr>error := ?e\<rparr>, None)"
      by (rule addVote_already_voted)
    then show ?thesis using Suc again [of m] by simp
  qed
  have reset: "\<not> hasVotedFor (resetState t0 now state) c"
    by (simp add: resetState_def hasVotedFor_def initialState_def Set_has.rep_eq
        Set_empty.rep_eq)
  show ?thesis
    using first again none reset assms by simp
qed

text \<open>
  The theorem at the state reached from the initial state by a successful vote for
  \<open>x\<close> under a session with room for three votes.
\<close>

definition session3 :: VotingSession where
  "session3 =
     \<lparr>session_id = ''s1'', isActive = True, startTime = Date 0, endTime = Date 100,
      maxVotesPerUser = 3, session_contestants = [''x'', ''y'', ''z'', ''w'']\<rparr>"

theorem addVote_AlreadyVoted_no_change_witness:
  "hasVotedFor
     (fst (addVote 0 20 (\<lambda>r. Resolved) (setSession 0 10 (initialState 0) (Some session3)) ''x''))
     ''x''
   \<and> snd (addVote 0 30 (\<lambda>r. Resolved)
         (fst (addVote 0 20 (\<lambda>r. Resolved) (setSession 0 10 (initialState 0) (Some session3)) ''x''))
         ''x'') = None
   \<and> totalVotes (userVoteState (fst (addVote 0 30 (\<lambda>r. Resolved)
         (fst (addVote 0 20 (\<lambda>r. Resolved) (setSession 0 10 (initialState 0) (Some session3)) ''x''))
         ''x''))) = 1"
proof -
  let ?s1 = "fst (addVote 0 20 (\<lambda>r. Resolved) (setSession 0 10 (initialState 0) (Some session3)) ''x'')"
  have h: "hasVotedFor ?s1 ''x''"
    by (simp add: addVote_def addVote_start_def addVote_finish_def setSession_def
        initialState_def session3_def canVote_def isVotingActive_def hasVotedFor_def
        Set_has.rep_eq Set_add.rep_eq Set_empty.rep_eq)
  have t: "totalVotes (userVoteState ?s1) = 1"
    by (simp add: addVote_def addVote_start_def addVote_finish_def setSession_def
        initialState_def session3_def canVote_def isVotingActive_def hasVotedFor_def
        Set_has.rep_eq Set_add.rep_eq Set_empty.rep_eq)
  show ?thesis
    using h t addVote_AlreadyVoted_no_change [OF h, of 0 30 "\<lambda>r. Resolved"] by simp
qed

text \<open>
  Claim C10. When \<open>addVote\<close> is called for a contestant not yet voted for and
  \<open>canVote\<close> is false, whatever the reason (no session, the voting window not
  active, or the vote cap reached), the error set is the same voting-limit error, the
  rest of the state is unchanged and no request is submitted. A closed window and a
  missing session give the limit error too.
\<close>

theorem addVote_cannot_vote_limit_error:
  assumes "\<not> hasVotedFor state c"
  shows "(\<not> canVote state) =
           (session state = None \<or> \<not> votingWindowActive state
            \<or> (\<exists>s. session state = Some s
                    \<and> maxVotesPerUser s \<le> totalVotes (userVoteState state)))
         \<and> (\<not> canVote state \<longrightarrow>
              addVote t0 now submitVote state c =
                (state\<lparr>error := Some (vote_error ''You have reached your voting limit'' False)\<rparr>,
                 None))
         \<and> (session state = None \<longrightarrow>
              addVote t0 now submitVote state c =
                (state\<lparr>error := Some (vote_error ''You have reached your voting limit'' False)\<rparr>,
                 None))
         \<and> (\<not> votingWindowActive state \<longrightarrow>
              addVote t0 now submitVote state c =
                (state\<lparr>error := Some (vote_error ''You have reached your voting limit'' False)\<rparr>,
                 None))"
proof -
  have reasons: "(\<not> canVote state) =
           (session state = None \<or> \<not> votingWindowActive state
            \<or> (\<exists>s. session state = Some s
                    \<and> maxVotesPerUser s \<le> totalVotes (userVoteState state)))"
    by (auto simp: canVote_def split: option.splits)
  have limit: "\<not> canVote state \<Longrightarrow>
      addVote t0 now submitVote state c =
        (state\<lparr>error := Some (vote_error ''You have reached your voting limit'' False)\<rparr>, None)"
    using assms by (rule addVote_cannot_vote)
  show ?thesis
    using reasons limit by blast
qed

text \<open>
  The theorem at the initial state (no session), and at a state whose session allows
  three votes while its voting window is closed.
\<close>

theorem addVote_cannot_vote_limit_error_witness:
  "\<not> hasVotedFor (initialState 0) ''x''
   \<and> addVote 0 5 (\<lambda>r. Resolved) (initialState 0) ''x'' =
       ((initialState 0)
          \<lparr>error := Some (vote_error ''You have reached your voting limit'' False)\<rparr>, None)
   \<and> \<not> hasVotedFor (setSession 0 200 (initialState 0) (Some session3)) ''x''
   \<and> \<not> votingWindowActive (setSession 0 200 (initialState 0) (Some session3))
   \<and> addVote 0 5 (\<lambda>r. Resolved) (setSession 0 200 (initialState 0) (Some session3)) ''x'' =
       ((setSession 0 200 (initialState 0) (Some session3))
          \<lparr>error := Some (vote_error ''You have reached your voting limit'' False)\<rparr>, None)"
proof -
  have a: "\<not> hasVotedFor (initialState 0) ''x''"
    by (simp add: hasVotedFor_def initialState_def Set_has.rep_eq Set_empty.rep_eq)
  have b: "session (initialState 0) = None"
    by (simp add: initialState_def)
  let ?closed = "setSession 0 200 (initialState 0) (Some session3)"
  have c: "\<not> hasVotedFor ?closed ''x''"
    by (simp add: hasVotedFor_def setSession_def initialState_def Set_has.rep_eq
        Set_empty.rep_eq)
  have d: "\<not> votingWindowActive ?closed"
    by (simp add: setSession_def initialState_def isVotingActive_def session3_def)
  show ?thesis
    using a b c d
      addVote_cannot_vote_limit_error [OF a, of 0 5 "\<lambda>r. Resolved"]
      addVote_cannot_vote_limit_error [OF c, of 0 5 "\<lambda>r. Resolved"]
    by simp
qed

text \<open>
  Claim C4 (scenario A). From a state with a session allowing three votes, an active
  voting window and an empty voted set, three sequential \<open>addVote\<close> calls for
  \<open>x\<close>, \<open>y\<close> and \<open>z\<close>, each submission succeeding, give \<open>totalVotes = 3\<close> and
  \<open>canVote\<close> false; a fourth call for \<open>w\<close> sets the voting-limit error, submits
  nothing and leaves the rest of the state as it was.
\<close>

theorem scenario_A_three_votes_then_limit:
  assumes "session state = Some s" and "maxVotesPerUser s = 3"
    and "votingWindowActive state"
    and "votedContestants (userVoteState state) = Set_empty"
    and "totalVotes (userVoteState state) = 0"
    and "s1 = fst (addVote t0 n1 (\<lambda>r. Resolved) state ''x'')"
    and "s2 = fst (addVote t0 n2 (\<lambda>r. Resolved) s1 ''y'')"
    and "s3 = fst (addVote t0 n3 (\<lambda>r. Resolved) s2 ''z'')"
  shows "totalVotes (userVoteState s3) = 3
         \<and> Array_from (votedContestants (userVoteState s3)) = [''x'', ''y'', ''z'']
         \<and> canVote s3 = False
         \<and> addVote t0 n4 submitVote s3 ''w'' =
             (s3\<lparr>error := Some (vote_error ''You have reached your voting limit'' False)\<rparr>, None)"
proof -
  have v1: "s1 = votingReducer t0 n1 state (ADD_VOTE ''x'')"
    using assms
    by (simp add: addVote_def addVote_start_def addVote_finish_def canVote_def
        Set_has.rep_eq Set_empty.rep_eq)
  have e1: "elements (votedContestants (userVoteState s1)) = [''x'']"
    and t1: "totalVotes (userVoteState s1) = 1"
    and c1: "session s1 = Some s" "votingWindowActive s1"
    using assms(1-5) by (simp_all add: v1 Set_add.rep_eq Set_empty.rep_eq)
  have v2: "s2 = votingReducer t0 n2 s1 (ADD_VOTE ''y'')"
    using assms(2,7) e1 t1 c1
    by (simp add: addVote_def addVote_start_def addVote_finish_def canVote_def
        Set_has.rep_eq)
  have e2: "elements (votedContestants (userVoteState s2)) = [''x'', ''y'']"
    and t2: "totalVotes (userVoteState s2) = 2"
    and c2: "session s2 = Some s" "votingWindowActive s2"
    using e1 t1 c1 by (simp_all add: v2 Set_add.rep_eq)
  have v3: "s3 = votingReducer t0 n3 s2 (ADD_VOTE ''z'')"
    using assms(2,8) e2 t2 c2
    by (simp add: addVote_def addVote_start_def addVote_finish_def canVote_def
        Set_has.rep_eq)
  have e3: "elements (votedContestants (userVoteState s3)) = [''x'', ''y'', ''z'']"
    and t3: "totalVotes (userVoteState s3) = 3"
    and c3: "session s3 = Some s" "votingWindowActive s3"
    using e2 t2 c2 by (simp_all add: v3 Set_add.rep_eq)
  have no: "\<not> canVote s3"
    using t3 c3 assms(2) by (simp add: canVote_def)
  have w: "\<not> hasVotedFor s3 ''w''"
    using e3 by (simp add: hasVotedFor_def Set_has.rep_eq)
  show ?thesis
    using t3 e3 no addVote_cannot_vote [OF w no, of t0 n4 submitVote]
    by (simp add: Array_from_def)
qed

theorem scenario_A_three_votes_then_limit_witness:
  "totalVotes (userVoteState
     (fst (addVote 0 40 (\<lambda>r. Resolved)
        (fst (addVote 0 30 (\<lambda>r. Resolved)
           (fst (addVote 0 20 (\<lambda>r. Resolved)
              (setSession 0 10 (initialState 0) (Some session3)) ''x'')) ''y'')) ''z''))) = 3
   \<and> snd (addVote 0 50 (\<lambda>r. Resolved)
       (fst (addVote 0 40 (\<lambda>r. Resolved)
          (fst (addVote 0 30 (\<lambda>r. Resolved)
             (fst (addVote 0 20 (\<lambda>r. Resolved)
                (setSession 0 10 (initialState 0) (Some session3)) ''x'')) ''y'')) ''z''))
       ''w'') = None"
proof -
  let ?s0 = "setSession 0 10 (initialState 0) (Some session3)"
  have a: "session ?s0 = Some session3" "maxVotesPerUser session3 = 3"
    "votingWindowActive ?s0" "votedContestants (userVoteState ?s0) = Set_empty"
    "totalVotes (userVoteState ?s0) = 0"
    by (simp_all add: setSession_def initialState_def session3_def isVotingActive_def)
  show ?thesis
    using scenario_A_three_votes_then_limit
      [OF a refl refl refl, where ?t0.0 = 0 and ?n1.0 = 20 and ?n2.0 = 30 and ?n3.0 = 40
         and ?n4.0 = 50 and submitVote = "\<lambda>r. Resolved"]
    by simp
qed

section \<open>Persistence of the vote state (VotingProvider's effects)\<close>

text \<open>
  The object the serialization effect builds from the vote state
  (\<^verbatim>\<open>const serializableState: SerializableUserVoteState = {...}\<close>). Its timestamp is
  \<^verbatim>\<open>lastUpdated.toISOString()\<close>, which raises on an Invalid Date.
\<close>

definition serializableState ::
  "(int \<Rightarrow> string) \<Rightarrow> UserVoteState \<Rightarrow> js_exception + SerializableUserVoteState" where
  "serializableState fmt u =
     (case toISOString fmt (lastUpdated u) of
        Inl e \<Rightarrow> Inl e
      | Inr t \<Rightarrow>
          Inr \<lparr>sessionId = sessionId u,
               votedContestants = Array_from (votedContestants u),
               totalVotes = totalVotes u,
               lastUpdated = t\<rparr>)"

text \<open>
  The object the restore effect builds from the stored value
  (\<^verbatim>\<open>const userVoteState: UserVoteState = {...}\<close>). \<^verbatim>\<open>new Date(string)\<close> is the
  platform's parser; it is the parameter \<open>parseDate\<close>.
\<close>

definition restoredUserVoteState ::
  "(string \<Rightarrow> Date) \<Rightarrow> SerializableUserVoteState \<Rightarrow> UserVoteState" where
  "restoredUserVoteState parseDate stored =
     \<lparr>sessionId = sessionId stored,
      votedContestants = Set_of (votedContestants stored),
      totalVotes = totalVotes stored,
      lastUpdated = parseDate (lastUpdated stored)\<rparr>"

text \<open>
  \<^verbatim>\<open>xs.every((id, index) => id === ys[index])\<close>; an index beyond the end of
  \<open>ys\<close> reads \<^verbatim>\<open>undefined\<close>, which equals no string.
\<close>

definition every_same_at_index :: "string list \<Rightarrow> string list \<Rightarrow> bool" where
  "every_same_at_index xs ys =
     list_all (\<lambda>(index, x). index < length ys \<and> x = ys ! index) (enumerate 0 xs)"

text \<open>
  The test both effects make on two id lists and two totals
  (\<^verbatim>\<open>isDifferent\<close>, \<^verbatim>\<open>hasChanged\<close>), after \<^verbatim>\<open>sort()\<close> has sorted both lists.
\<close>

definition differs :: "int \<Rightarrow> string list \<Rightarrow> int \<Rightarrow> string list \<Rightarrow> bool" where
  "differs n xs m ys = (n \<noteq> m \<or> length xs \<noteq> length ys \<or> \<not> every_same_at_index xs ys)"

text \<open>
  The restore effect (``Sync with localStorage on mount and when session changes'').
  \<^verbatim>\<open>storedVoteState.votedContestants.sort()\<close> sorts the stored list in place, so the
  Set is built from the sorted list. \<^verbatim>\<open>state.session?.id\<close> is \<^verbatim>\<open>undefined\<close>
  without a session, which equals no stored session id.
\<close>

definition restore_effect ::
  "(string \<Rightarrow> Date) \<Rightarrow> int \<Rightarrow> int \<Rightarrow> bool \<Rightarrow> VotingState \<Rightarrow> SerializableUserVoteState
     \<Rightarrow> VotingState" where
  "restore_effect parseDate t0 now isResetting state storedVoteState =
     (if isResetting then state
      else if (case session state of
                 None \<Rightarrow> False
               | Some s \<Rightarrow> sessionId storedVoteState = session_id s)
              \<and> totalVotes storedVoteState > 0 then
        (let currentVotedContestants =
               sort (Array_from (votedContestants (userVoteState state)));
             storedVotedContestants = sort (votedContestants storedVoteState);
             isDifferent =
               differs (totalVotes (userVoteState state)) currentVotedContestants
                 (totalVotes storedVoteState) storedVotedContestants
         in if isDifferent then
              votingReducer t0 now state
                (SET_USER_VOTE_STATE
                   (restoredUserVoteState parseDate
                      (storedVoteState\<lparr>votedContestants := storedVotedContestants\<rparr>)))
            else state)
      else state)"

text \<open>
  The serialization effect (``Update localStorage when vote state changes''). It returns
  the value it passes to \<^verbatim>\<open>setStoredVoteState\<close>, or \<open>None\<close> when it writes
  nothing; \<^verbatim>\<open>serializableState.votedContestants.sort()\<close> has sorted the list of the
  value written.
\<close>

definition persist_effect ::
  "(int \<Rightarrow> string) \<Rightarrow> VotingState \<Rightarrow> SerializableUserVoteState
     \<Rightarrow> js_exception + SerializableUserVoteState option" where
  "persist_effect fmt state storedVoteState =
     (if sessionId (userVoteState state) \<noteq> [] then
        (case serializableState fmt (userVoteState state) of
           Inl e \<Rightarrow> Inl e
         | Inr serializable \<Rightarrow>
             (let currentStoredContestants = sort (votedContestants storedVoteState);
                  newContestants = sort (votedContestants serializable);
                  hasChanged =
                    differs (totalVotes storedVoteState) currentStoredContestants
                      (totalVotes serializable) newContestants
              in if hasChanged then
                   Inr (Some (serializable\<lparr>votedContestants := newContestants\<rparr>))
                 else Inr None))
      else Inr None)"

subsection \<open>Facts about the Set model\<close>

lemma Set_of_Array_from: "Set_of (Array_from s) = s"
proof -
  have "distinct (elements s)"
    using elements [of s] by simp
  then have "rev (remdups (rev (elements s))) = elements s"
    by (simp add: distinct_remdups_id)
  then show ?thesis
    by (simp add: Array_from_def elements_inject [symmetric] Set_of.rep_eq)
qed

lemma set_Array_from: "set (Array_from s) = set (elements s)"
  by (simp add: Array_from_def)

lemma set_elements_Set_of: "set (elements (Set_of xs)) = set xs"
  by (simp add: Set_of.rep_eq)

lemma Set_size_Set_of: "Set_size (Set_of xs) = int (card (set xs))"
  by (simp add: Set_size.rep_eq Set_of.rep_eq length_remdups_card_conv)

lemma Set_size_card: "Set_size s = int (card (set (elements s)))"
proof -
  have "distinct (elements s)"
    using elements [of s] by simp
  then show ?thesis
    by (simp add: Set_size.rep_eq distinct_card)
qed

lemma Set_size_add:
  "Set_size (Set_add x s) = (if Set_has s x then Set_size s else Set_size s + 1)"
  by (simp add: Set_size.rep_eq Set_add.rep_eq Set_has.rep_eq)

text \<open>
  Claim C6, amended. For every vote state whose timestamp is a valid date, the
  serialization effect builds a serialized form: the same session id and total, the
  Set's elements as a list and the timestamp as ISO text. Deserializing it gives back
  the same session id, the same voted set and the same total. The list the effect
  writes is that list sorted, which rebuilds a Set with the same members.
\<close>

theorem serialize_deserialize_roundtrip:
  assumes "lastUpdated u = Date t"
  shows "serializableState fmt u =
           Inr \<lparr>sessionId = sessionId u, votedContestants = Array_from (votedContestants u),
                totalVotes = totalVotes u, lastUpdated = fmt t\<rparr>
    \<and> (\<exists>s. serializableState fmt u = Inr s
          \<and> sessionId (restoredUserVoteState parseDate s) = sessionId u
          \<and> votedContestants (restoredUserVoteState parseDate s) = votedContestants u
          \<and> totalVotes (restoredUserVoteState parseDate s) = totalVotes u
          \<and> sessionId (restoredUserVoteState parseDate
               (s\<lparr>votedContestants := sort (votedContestants s)\<rparr>)) = sessionId u
          \<and> set (elements (votedContestants (restoredUserVoteState parseDate
               (s\<lparr>votedContestants := sort (votedContestants s)\<rparr>))))
              = set (elements (votedContestants u))
          \<and> totalVotes (restoredUserVoteState parseDate
               (s\<lparr>votedContestants := sort (votedContestants s)\<rparr>)) = totalVotes u)"
  using assms
  by (simp add: serializableState_def restoredUserVoteState_def Set_of_Array_from
      set_elements_Set_of set_Array_from)

text \<open>The theorem at a vote state with two votes, \<open>b\<close> cast before \<open>a\<close>.\<close>

theorem serialize_deserialize_roundtrip_witness:
  "serializableState (\<lambda>t. ''T'')
     \<lparr>sessionId = ''s1'', votedContestants = Set_add ''a'' (Set_add ''b'' Set_empty),
      totalVotes = 2, lastUpdated = Date 5\<rparr>
     = Inr \<lparr>sessionId = ''s1'', votedContestants = [''b'', ''a''], totalVotes = 2,
            lastUpdated = ''T''\<rparr>
   \<and> votedContestants (restoredUserVoteState (\<lambda>s. Date 5)
        \<lparr>sessionId = ''s1'', votedContestants = [''b'', ''a''], totalVotes = 2,
         lastUpdated = ''T''\<rparr>)
      = Set_add ''a'' (Set_add ''b'' Set_empty)"
proof -
  let ?u = "\<lparr>sessionId = ''s1'', votedContestants = Set_add ''a'' (Set_add ''b'' Set_empty),
             totalVotes = 2, lastUpdated = Date 5\<rparr>"
  have d: "lastUpdated ?u = Date 5"
    by simp
  have a: "Array_from (Set_add ''a'' (Set_add ''b'' Set_empty)) = [''b'', ''a'']"
    by (simp add: Array_from_def Set_add.rep_eq Set_empty.rep_eq)
  note r = serialize_deserialize_roundtrip
      [OF d, where fmt = "\<lambda>t. ''T''" and parseDate = "\<lambda>s. Date 5"]
  have s: "serializableState (\<lambda>t. ''T'') ?u
             = Inr \<lparr>sessionId = ''s1'', votedContestants = [''b'', ''a''], totalVotes = 2,
                    lastUpdated = ''T''\<rparr>"
    using r [THEN conjunct1] by (simp add: a)
  from r [THEN conjunct2] obtain s' where
    "serializableState (\<lambda>t. ''T'') ?u = Inr s'"
    "votedContestants (restoredUserVoteState (\<lambda>s. Date 5) s') = votedContestants ?u"
    by blast
  then show ?thesis
    using s by simp
qed

text \<open>
  The claim as stated fails. The restore effect builds the timestamp with
  \<^verbatim>\<open>new Date(storedVoteState.lastUpdated)\<close>, so a stored timestamp that does not
  parse gives a vote state whose timestamp is an Invalid Date; the serialization effect
  then raises a RangeError and there is no serialized form to read back.
\<close>

theorem serialize_invalid_date_raises:
  "lastUpdated (userVoteState
     (restore_effect (\<lambda>s. if s = ''garbage'' then Invalid_Date else Date 5) 0 20 False
        (setSession 0 10 (initialState 0) (Some session3))
        \<lparr>sessionId = ''s1'', votedContestants = [''a''], totalVotes = 1,
         lastUpdated = ''garbage''\<rparr>)) = Invalid_Date
   \<and> (\<forall>fmt. serializableState fmt (userVoteState
         (restore_effect (\<lambda>s. if s = ''garbage'' then Invalid_Date else Date 5) 0 20 False
            (setSession 0 10 (initialState 0) (Some session3))
            \<lparr>sessionId = ''s1'', votedContestants = [''a''], totalVotes = 1,
             lastUpdated = ''garbage''\<rparr>)) = Inl RangeError)
   \<and> (\<forall>fmt stored. persist_effect fmt
         (restore_effect (\<lambda>s. if s = ''garbage'' then Invalid_Date else Date 5) 0 20 False
            (setSession 0 10 (initialState 0) (Some session3))
            \<lparr>sessionId = ''s1'', votedContestants = [''a''], totalVotes = 1,
             lastUpdated = ''garbage''\<rparr>) stored = Inl RangeError)"
  by (simp add: restore_effect_def setSession_def initialState_def session3_def differs_def
      Let_def restoredUserVoteState_def serializableState_def persist_effect_def
      Array_from_def Set_empty.rep_eq)

section \<open>Reachable states of the store\<close>

text \<open>The state \<^verbatim>\<open>useReducer\<close> starts from in \<^verbatim>\<open>VotingProvider\<close>.\<close>

definition providerInitialState ::
  "int \<Rightarrow> int \<Rightarrow> VotingSession option \<Rightarrow> Contestant list \<Rightarrow> VotingState" where
  "providerInitialState t0 now initialSession initialContestants =
     (initialState t0)
       \<lparr>session := initialSession,
        contestants := initialContestants,
        votingWindowActive := isVotingActive now initialSession,
        userVoteState :=
          (userVoteState (initialState t0))
            \<lparr>sessionId := (case initialSession of Some s \<Rightarrow> session_id s | None \<Rightarrow> []),
             votedContestants := Set_empty,
             totalVotes := 0\<rparr>\<rparr>"

definition setLoading :: "int \<Rightarrow> int \<Rightarrow> VotingState \<Rightarrow> bool \<Rightarrow> VotingState" where
  "setLoading t0 now state l = votingReducer t0 now state (SET_LOADING l)"

definition setContestants :: "int \<Rightarrow> int \<Rightarrow> VotingState \<Rightarrow> Contestant list \<Rightarrow> VotingState" where
  "setContestants t0 now state cs = votingReducer t0 now state (SET_CONTESTANTS cs)"

definition updateContestant :: "int \<Rightarrow> int \<Rightarrow> VotingState \<Rightarrow> Contestant \<Rightarrow> VotingState" where
  "updateContestant t0 now state c = votingReducer t0 now state (UPDATE_CONTESTANT c)"

text \<open>
  The states the store reaches from its initial state by its public operations, each
  \<open>addVote\<close> run to its end before the next operation, and by the restore effect. The
  restore effect reads a stored value; \<open>ok\<close> says which stored values it may meet.
\<close>

inductive reachable ::
  "(SerializableUserVoteState \<Rightarrow> bool) \<Rightarrow> (string \<Rightarrow> Date) \<Rightarrow> int \<Rightarrow> VotingState \<Rightarrow> bool"
  for ok :: "SerializableUserVoteState \<Rightarrow> bool" and parseDate :: "string \<Rightarrow> Date" and t0 :: int
  where
    reach_initial: "reachable ok parseDate t0 (initialState t0)"
  | reach_provider:
      "reachable ok parseDate t0 (providerInitialState t0 now initialSession initialContestants)"
  | reach_setSession:
      "reachable ok parseDate t0 state \<Longrightarrow> reachable ok parseDate t0 (setSession t0 now state s)"
  | reach_addVote:
      "reachable ok parseDate t0 state \<Longrightarrow>
       reachable ok parseDate t0 (fst (addVote t0 now submitVote state c))"
  | reach_resetState:
      "reachable ok parseDate t0 state \<Longrightarrow> reachable ok parseDate t0 (resetState t0 now state)"
  | reach_restore:
      "reachable ok parseDate t0 state \<Longrightarrow> ok stored \<Longrightarrow>
       reachable ok parseDate t0 (restore_effect parseDate t0 now False state stored)"
  | reach_setLoading:
      "reachable ok parseDate t0 state \<Longrightarrow> reachable ok parseDate t0 (setLoading t0 now state l)"
  | reach_setError:
      "reachable ok parseDate t0 state \<Longrightarrow> reachable ok parseDate t0 (setError t0 now state e)"
  | reach_setContestants:
      "reachable ok parseDate t0 state \<Longrightarrow>
       reachable ok parseDate t0 (setContestants t0 now state cs)"
  | reach_updateContestant:
      "reachable ok parseDate t0 state \<Longrightarrow>
       reachable ok parseDate t0 (updateContestant t0 now state ct)"
  | reach_setVotingWindowStatus:
      "reachable ok parseDate t0 state \<Longrightarrow>
       reachable ok parseDate t0 (setVotingWindowStatus t0 now state active)"

text \<open>The invariant: the counter is the size of the voted set.\<close>

definition total_is_size :: "VotingState \<Rightarrow> bool" where
  "total_is_size state =
     (totalVotes (userVoteState state) = Set_size (votedContestants (userVoteState state)))"

text \<open>A stored value whose counter is the number of distinct ids in its list.\<close>

definition stored_consistent :: "SerializableUserVoteState \<Rightarrow> bool" where
  "stored_consistent stored =
     (totalVotes stored = Set_size (Set_of (votedContestants stored)))"

lemma total_is_size_addVote:
  assumes "total_is_size state"
  shows "total_is_size (fst (addVote t0 now submitVote state c))"
proof (cases "hasVotedFor state c")
  case True
  then show ?thesis
    using assms by (simp add: addVote_already_voted total_is_size_def)
next
  case False
  note notvoted = this
  show ?thesis
  proof (cases "canVote state")
    case False
    then show ?thesis
      using assms notvoted by (simp add: addVote_cannot_vote total_is_size_def)
  next
    case True
    then show ?thesis
      using assms notvoted
      by (cases "submitVote
            \<lparr>request_contestantId = c,
             request_sessionId = (case session state of Some s \<Rightarrow> session_id s | None \<Rightarrow> []),
             request_userId = ''anonymous''\<rparr>")
        (simp_all add: addVote_def addVote_start_def addVote_finish_def hasVotedFor_def
          total_is_size_def setError_def Set_size_add)
  qed
qed

lemma total_is_size_restore:
  assumes "total_is_size state" and "stored_consistent stored"
  shows "total_is_size (restore_effect parseDate t0 now r state stored)"
proof -
  have "Set_size (Set_of (sort (votedContestants stored))) = totalVotes stored"
    using assms(2) by (simp add: stored_consistent_def Set_size_Set_of)
  then show ?thesis
    using assms(1)
    by (simp add: restore_effect_def Let_def total_is_size_def restoredUserVoteState_def)
qed

lemma total_is_size_initial: "total_is_size (initialState t0)"
  by (simp add: total_is_size_def initialState_def Set_size.rep_eq Set_empty.rep_eq)

lemma total_is_size_provider:
  "total_is_size (providerInitialState t0 now initialSession initialContestants)"
  by (simp add: total_is_size_def providerInitialState_def Set_size.rep_eq Set_empty.rep_eq)

text \<open>
  Claim C1, amended. In every state reached from the initial state by the public
  operations (each \<open>addVote\<close> run to its end before the next operation) and by
  restores from stored values whose counter is the number of distinct ids in their
  list, \<open>totalVotes\<close> is the size of the voted set.
\<close>

theorem reachable_totalVotes_is_size:
  assumes "reachable stored_consistent parseDate t0 state"
  shows "totalVotes (userVoteState state) = Set_size (votedContestants (userVoteState state))"
proof -
  have "total_is_size state"
    using assms
  proof (induction rule: reachable.induct)
    case reach_initial
    show ?case by (rule total_is_size_initial)
  next
    case (reach_provider now initialSession initialContestants)
    show ?case by (rule total_is_size_provider)
  next
    case (reach_setSession state now s)
    then show ?case
      by (cases s) (simp_all add: total_is_size_def setSession_def)
  next
    case (reach_addVote state now submitVote c)
    then show ?case by (simp add: total_is_size_addVote)
  next
    case (reach_resetState state now)
    show ?case by (simp add: resetState_def total_is_size_initial)
  next
    case (reach_restore state stored now)
    then show ?case by (simp add: total_is_size_restore)
  next
    case (reach_setLoading state now l)
    then show ?case by (simp add: total_is_size_def setLoading_def)
  next
    case (reach_setError state now e)
    then show ?case by (simp add: total_is_size_def setError_def)
  next
    case (reach_setContestants state now cs)
    then show ?case by (simp add: total_is_size_def setContestants_def)
  next
    case (reach_updateContestant state now ct)
    then show ?case by (simp add: total_is_size_def updateContestant_def)
  next
    case (reach_setVotingWindowStatus state now active)
    then show ?case by (simp add: total_is_size_def setVotingWindowStatus_def)
  qed
  then show ?thesis
    by (simp add: total_is_size_def)
qed

text \<open>
  The theorem at the state reached by setting a session, restoring the stored votes
  \<open>b, a\<close> and voting for \<open>x\<close>: three votes, three members.
\<close>

definition stored_two :: SerializableUserVoteState where
  "stored_two =
     \<lparr>sessionId = ''s1'', votedContestants = [''b'', ''a''], totalVotes = 2,
      lastUpdated = ''T''\<rparr>"

theorem reachable_totalVotes_is_size_witness:
  "reachable stored_consistent (\<lambda>s. Date 5) 0
     (fst (addVote 0 30 (\<lambda>r. Resolved)
        (restore_effect (\<lambda>s. Date 5) 0 20 False
           (setSession 0 10 (initialState 0) (Some session3)) stored_two) ''x''))
   \<and> totalVotes (userVoteState
       (fst (addVote 0 30 (\<lambda>r. Resolved)
          (restore_effect (\<lambda>s. Date 5) 0 20 False
             (setSession 0 10 (initialState 0) (Some session3)) stored_two) ''x''))) = 3
   \<and> Set_size (votedContestants (userVoteState
       (fst (addVote 0 30 (\<lambda>r. Resolved)
          (restore_effect (\<lambda>s. Date 5) 0 20 False
             (setSession 0 10 (initialState 0) (Some session3)) stored_two) ''x'')))) = 3"
proof -
  let ?s = "fst (addVote 0 30 (\<lambda>r. Resolved)
        (restore_effect (\<lambda>s. Date 5) 0 20 False
           (setSession 0 10 (initialState 0) (Some session3)) stored_two) ''x'')"
  have c: "stored_consistent stored_two"
    by (simp add: stored_consistent_def stored_two_def Set_size.rep_eq Set_of.rep_eq)
  have r: "reachable stored_consistent (\<lambda>s. Date 5) 0 ?s"
    by (intro reach_addVote reach_restore reach_setSession reach_initial c)
  have srt: "sort [''b'', ''a''] = [''a'', ''b'']"
    by simp
  have t: "totalVotes (userVoteState ?s) = 3"
    by (simp add: addVote_def addVote_start_def addVote_finish_def restore_effect_def
        setSession_def initialState_def session3_def stored_two_def canVote_def
        isVotingActive_def differs_def Let_def restoredUserVoteState_def
        Set_has.rep_eq Set_of.rep_eq Set_empty.rep_eq Array_from_def srt)
  show ?thesis
    using r t reachable_totalVotes_is_size [OF r] by simp
qed

text \<open>
  The claim as stated fails. The restore effect copies the stored counter and builds
  the Set from the stored list without comparing them: from the stored value with the
  list \<open>a\<close> and the counter 2 it reaches a state with \<open>totalVotes = 2\<close> and one
  member.
\<close>

theorem restore_breaks_totalVotes_is_size:
  "reachable (\<lambda>stored. True) (\<lambda>s. Date 5) 0
     (restore_effect (\<lambda>s. Date 5) 0 20 False
        (setSession 0 10 (initialState 0) (Some session3))
        \<lparr>sessionId = ''s1'', votedContestants = [''a''], totalVotes = 2, lastUpdated = ''T''\<rparr>)
   \<and> totalVotes (userVoteState
       (restore_effect (\<lambda>s. Date 5) 0 20 False
          (setSession 0 10 (initialState 0) (Some session3))
          \<lparr>sessionId = ''s1'', votedContestants = [''a''], totalVotes = 2,
           lastUpdated = ''T''\<rparr>)) = 2
   \<and> Set_size (votedContestants (userVoteState
       (restore_effect (\<lambda>s. Date 5) 0 20 False
          (setSession 0 10 (initialState 0) (Some session3))
          \<lparr>sessionId = ''s1'', votedContestants = [''a''], totalVotes = 2,
           lastUpdated = ''T''\<rparr>))) = 1"
proof -
  have r: "reachable (\<lambda>stored. True) (\<lambda>s. Date 5) 0
     (restore_effect (\<lambda>s. Date 5) 0 20 False
        (setSession 0 10 (initialState 0) (Some session3))
        \<lparr>sessionId = ''s1'', votedContestants = [''a''], totalVotes = 2, lastUpdated = ''T''\<rparr>)"
    by (intro reach_restore reach_setSession reach_initial TrueI)
  show ?thesis
    using r
    by (simp add: restore_effect_def setSession_def initialState_def session3_def
        differs_def Let_def restoredUserVoteState_def Set_size.rep_eq Set_of.rep_eq
        Set_empty.rep_eq Array_from_def)
qed

section \<open>The storage adapter (hooks/useLocalStorage.ts)\<close>

text \<open>
  The browser's \<^verbatim>\<open>window.localStorage\<close>: its entries in key order, and which calls of
  \<^verbatim>\<open>setItem\<close> and \<^verbatim>\<open>removeItem\<close> raise (quota exceeded, storage disabled).
  \<^verbatim>\<open>typeof window === 'undefined'\<close> is the value \<open>None\<close> of type
  \<open>Storage option\<close>.
\<close>

record Storage =
  items :: "(string \<times> string) list"
  setItem_throws :: "string \<Rightarrow> string \<Rightarrow> bool"
  removeItem_throws :: "string \<Rightarrow> bool"

definition getItem :: "string \<Rightarrow> Storage \<Rightarrow> string option" where
  "getItem key w = map_of (items w) key"

definition setItem :: "string \<Rightarrow> string \<Rightarrow> Storage \<Rightarrow> js_exception + Storage" where
  "setItem key v w =
     (if setItem_throws w key v then Inl DOMException
      else Inr (w\<lparr>items := AList.update key v (items w)\<rparr>))"

definition removeItem :: "string \<Rightarrow> Storage \<Rightarrow> js_exception + Storage" where
  "removeItem key w =
     (if removeItem_throws w key then Inl DOMException
      else Inr (w\<lparr>items := AList.delete key (items w)\<rparr>))"

text \<open>
  The state of one \<^verbatim>\<open>useLocalStorage(key, defaultValue)\<close>: its \<^verbatim>\<open>value\<close> (here
  \<open>val\<close>), \<^verbatim>\<open>isSupported\<close> and \<^verbatim>\<open>error\<close> (here \<open>storageError\<close>).
\<close>

record 'a LocalStorageHook =
  val :: 'a
  isSupported :: bool
  storageError :: "AppError option"

text \<open>The error objects of the adapter; the key stands between double quotes.\<close>

definition storage_error :: "string \<Rightarrow> AppError" where
  "storage_error msg =
     \<lparr>type = STORAGE_ERROR, message = msg, recoverable = True,
      retryAction = Some Retry_setError_null, details = None\<rparr>"

definition quoted :: "string \<Rightarrow> string" where
  "quoted key = [CHR 0x22] @ key @ [CHR 0x22]"

text \<open>
  The argument of \<^verbatim>\<open>setValue\<close>: a value, or a function of the previous value
  (which may raise).
\<close>

datatype 'a SetStateAction = Value 'a | Updater "'a \<Rightarrow> js_exception + 'a"

text \<open>
  \<^verbatim>\<open>setStoredValue\<close>. Its body is one \<^verbatim>\<open>try\<close> block: \<^verbatim>\<open>setValue(valueToStore)\<close>
  comes before the write, so an exception of \<^verbatim>\<open>JSON.stringify\<close> or of
  \<^verbatim>\<open>setItem\<close> leaves the new value in place; the \<^verbatim>\<open>catch\<close> sets the error.
  \<^verbatim>\<open>JSON.stringify\<close> is the parameter \<open>stringify\<close> (\<open>None\<close> when it raises).
\<close>

definition setStoredValue ::
  "('a \<Rightarrow> string option) \<Rightarrow> string \<Rightarrow> 'a SetStateAction
     \<Rightarrow> 'a LocalStorageHook \<times> Storage option \<Rightarrow> 'a LocalStorageHook \<times> Storage option" where
  "setStoredValue stringify key newValue hw =
     (case hw of (h, window) \<Rightarrow>
        (case (case newValue of Value v \<Rightarrow> Inr v | Updater f \<Rightarrow> f (val h)) of
           Inl e \<Rightarrow>
             (h\<lparr>storageError :=
                  Some (storage_error
                    (''Failed to save value to localStorage for key '' @ quoted key))\<rparr>,
              window)
         | Inr valueToStore \<Rightarrow>
             (case (if isSupported h then window else None) of
                None \<Rightarrow> (h\<lparr>val := valueToStore, storageError := None\<rparr>, window)
              | Some w \<Rightarrow>
                  (case stringify valueToStore of
                     None \<Rightarrow>
                       (h\<lparr>val := valueToStore,
                          storageError :=
                            Some (storage_error
                              (''Failed to save value to localStorage for key '' @ quoted key))\<rparr>,
                        window)
                   | Some json \<Rightarrow>
                       (case setItem key json w of
                          Inl e \<Rightarrow>
                            (h\<lparr>val := valueToStore,
                               storageError :=
                                 Some (storage_error
                                   (''Failed to save value to localStorage for key ''
                                      @ quoted key))\<rparr>,
                             window)
                        | Inr w' \<Rightarrow>
                            (h\<lparr>val := valueToStore, storageError := None\<rparr>, Some w'))))))"

text \<open>\<^verbatim>\<open>removeValue\<close>: the value goes back to the default, then the entry is removed.\<close>

definition removeValue ::
  "string \<Rightarrow> 'a \<Rightarrow> 'a LocalStorageHook \<times> Storage option
     \<Rightarrow> 'a LocalStorageHook \<times> Storage option" where
  "removeValue key defaultValue hw =
     (case hw of (h, window) \<Rightarrow>
        (case (if isSupported h then window else None) of
           None \<Rightarrow> (h\<lparr>val := defaultValue, storageError := None\<rparr>, window)
         | Some w \<Rightarrow>
             (case removeItem key w of
                Inl e \<Rightarrow>
                  (h\<lparr>val := defaultValue,
                     storageError :=
                       Some (storage_error
                         (''Failed to remove value from localStorage for key ''
                            @ quoted key))\<rparr>,
                   window)
              | Inr w' \<Rightarrow> (h\<lparr>val := defaultValue, storageError := None\<rparr>, Some w'))))"

text \<open>
  Claim C8. When the write of \<^verbatim>\<open>setValue\<close> reaches a \<^verbatim>\<open>setItem\<close> that raises,
  for any key and any value, the call still returns: the adapter's value is the new
  value, its error is the storage error of the failed save, and the storage is as it
  was.
\<close>

theorem setStoredValue_setItem_throws:
  assumes "isSupported h" and "stringify v = Some json" and "setItem_throws w key json"
  shows "setStoredValue stringify key (Value v) (h, Some w) =
           (h\<lparr>val := v,
              storageError :=
                Some \<lparr>type = STORAGE_ERROR,
                      message = ''Failed to save value to localStorage for key '' @ quoted key,
                      recoverable = True, retryAction = Some Retry_setError_null,
                      details = None\<rparr>\<rparr>,
            Some w)
         \<and> (\<forall>f. f (val h) = Inr v \<longrightarrow>
               setStoredValue stringify key (Updater f) (h, Some w) =
                 (h\<lparr>val := v,
                    storageError :=
                      Some \<lparr>type = STORAGE_ERROR,
                            message =
                              ''Failed to save value to localStorage for key '' @ quoted key,
                            recoverable = True, retryAction = Some Retry_setError_null,
                            details = None\<rparr>\<rparr>,
                  Some w))"
  using assms by (simp add: setStoredValue_def setItem_def storage_error_def)

text \<open>
  The theorem at a storage that accepts no write, for the key \<open>test\<close> and the value
  \<open>new-value\<close>, as in the adapter's own test of \<^verbatim>\<open>setItem\<close> errors.
\<close>

definition full_storage :: Storage where
  "full_storage =
     \<lparr>items = [], setItem_throws = (\<lambda>key v. True), removeItem_throws = (\<lambda>key. False)\<rparr>"

theorem setStoredValue_setItem_throws_witness:
  "val (fst (setStoredValue Some ''test'' (Value ''new-value'')
       (\<lparr>val = ''default'', isSupported = True, storageError = None\<rparr>, Some full_storage)))
     = ''new-value''
   \<and> map_option type
       (storageError (fst (setStoredValue Some ''test'' (Value ''new-value'')
          (\<lparr>val = ''default'', isSupported = True, storageError = None\<rparr>, Some full_storage))))
     = Some STORAGE_ERROR
   \<and> snd (setStoredValue Some ''test'' (Value ''new-value'')
       (\<lparr>val = ''default'', isSupported = True, storageError = None\<rparr>, Some full_storage))
     = Some full_storage"
proof -
  let ?h = "\<lparr>val = ''default'', isSupported = True, storageError = None\<rparr>"
  have a: "isSupported ?h" "Some ''new-value'' = Some ''new-value''"
    "setItem_throws full_storage ''test'' ''new-value''"
    by (simp_all add: full_storage_def)
  show ?thesis
    using setStoredValue_setItem_throws
      [where h = ?h and stringify = Some and v = "''new-value''" and json = "''new-value''"
         and w = full_storage and key = "''test''", OF a]
    by simp
qed

section \<open>The provider: store, storage adapter and browser storage together\<close>

text \<open>\<^verbatim>\<open>s.startsWith(p)\<close>\<close>

definition startsWith :: "string \<Rightarrow> string \<Rightarrow> bool" where
  "startsWith s p = (take (length p) s = p)"

text \<open>
  \<^verbatim>\<open>`voting-state-${state.session?.id || 'default'}`\<close>: without a session, or with an
  empty session id, the key ends in \<open>default\<close>.
\<close>

definition storageKey :: "VotingState \<Rightarrow> string" where
  "storageKey state =
     ''voting-state-'' @
       (case session state of
          None \<Rightarrow> ''default''
        | Some s \<Rightarrow> if session_id s = [] then ''default'' else session_id s)"

text \<open>
  The top of \<^verbatim>\<open>VotingProvider\<close>: when \<^verbatim>\<open>sessionStorage\<close> holds the flag
  \<^verbatim>\<open>voting-reset-in-progress\<close> (set by the page's reset handler before it reloads the
  page), the flag is removed and every \<^verbatim>\<open>localStorage\<close> key that starts with
  \<^verbatim>\<open>voting-state-\<close> is removed. \<open>remove_stale_keys\<close> is the \<^verbatim>\<open>keys.forEach\<close>.
\<close>

fun remove_stale_keys :: "string list \<Rightarrow> Storage \<Rightarrow> js_exception + Storage" where
  "remove_stale_keys [] w = Inr w"
| "remove_stale_keys (key # keys) w =
     (if startsWith key ''voting-state-'' then
        (case removeItem key w of
           Inl e \<Rightarrow> Inl e
         | Inr w' \<Rightarrow> remove_stale_keys keys w')
      else remove_stale_keys keys w)"

definition isResetting :: "Storage \<Rightarrow> bool" where
  "isResetting sessionStorage =
     (getItem ''voting-reset-in-progress'' sessionStorage = Some ''true'')"

definition VotingProvider_reset_check ::
  "Storage \<Rightarrow> Storage \<Rightarrow> js_exception + Storage \<times> Storage" where
  "VotingProvider_reset_check sessionStorage localStorage =
     (if isResetting sessionStorage then
        (case removeItem ''voting-reset-in-progress'' sessionStorage of
           Inl e \<Rightarrow> Inl e
         | Inr sessionStorage' \<Rightarrow>
             (case remove_stale_keys (map fst (items localStorage)) localStorage of
                Inl e \<Rightarrow> Inl e
              | Inr localStorage' \<Rightarrow> Inr (sessionStorage', localStorage')))
      else Inr (sessionStorage, localStorage))"

text \<open>
  The provider holds the reducer's state (\<open>store\<close>), the state of its storage adapter
  (\<open>adapter\<close>, whose value is \<^verbatim>\<open>storedVoteState\<close>) and the browser's
  \<^verbatim>\<open>localStorage\<close>.
\<close>

record Provider =
  store :: VotingState
  adapter :: "SerializableUserVoteState LocalStorageHook"
  localStorage :: "Storage option"

text \<open>
  The effects of one commit outside a reset: both read the committed state and the
  adapter's value; the restore effect dispatches, the serialization effect writes
  through \<^verbatim>\<open>setStoredVoteState\<close> under the current storage key. Both effects also
  sort the adapter's list where it stands; that reordering of the adapter's value is
  not kept here (both effects sort the list again before they compare it).
\<close>

definition provider_effects ::
  "(SerializableUserVoteState \<Rightarrow> string option) \<Rightarrow> (int \<Rightarrow> string) \<Rightarrow> (string \<Rightarrow> Date)
     \<Rightarrow> int \<Rightarrow> int \<Rightarrow> Provider \<Rightarrow> js_exception + Provider" where
  "provider_effects stringify fmt parseDate t0 now p =
     (let restored = restore_effect parseDate t0 now False (store p) (val (adapter p))
      in case persist_effect fmt (store p) (val (adapter p)) of
           Inl e \<Rightarrow> Inl e
         | Inr None \<Rightarrow> Inr (p\<lparr>store := restored\<rparr>)
         | Inr (Some serializable) \<Rightarrow>
             (case setStoredValue stringify (storageKey (store p)) (Value serializable)
                     (adapter p, localStorage p) of
                (h, w) \<Rightarrow> Inr \<lparr>store = restored, adapter = h, localStorage = w\<rparr>))"

text \<open>A call of \<^verbatim>\<open>resetState()\<close> or \<^verbatim>\<open>setSession(s)\<close>, and the effects of the commit it causes.\<close>

definition provider_resetState ::
  "(SerializableUserVoteState \<Rightarrow> string option) \<Rightarrow> (int \<Rightarrow> string) \<Rightarrow> (string \<Rightarrow> Date)
     \<Rightarrow> int \<Rightarrow> int \<Rightarrow> Provider \<Rightarrow> js_exception + Provider" where
  "provider_resetState stringify fmt parseDate t0 now p =
     provider_effects stringify fmt parseDate t0 now (p\<lparr>store := resetState t0 now (store p)\<rparr>)"

definition provider_setSession ::
  "(SerializableUserVoteState \<Rightarrow> string option) \<Rightarrow> (int \<Rightarrow> string) \<Rightarrow> (string \<Rightarrow> Date)
     \<Rightarrow> int \<Rightarrow> int \<Rightarrow> VotingSession option \<Rightarrow> Provider \<Rightarrow> js_exception + Provider" where
  "provider_setSession stringify fmt parseDate t0 now s p =
     provider_effects stringify fmt parseDate t0 now (p\<lparr>store := setSession t0 now (store p) s\<rparr>)"

subsection \<open>What the reset check removes\<close>

lemma remove_stale_keys_filter:
  assumes "\<forall>k. \<not> removeItem_throws w k"
  shows "remove_stale_keys keys w =
           Inr (w\<lparr>items :=
             filter (\<lambda>(k, v). \<not> (k \<in> set keys \<and> startsWith k ''voting-state-''))
               (items w)\<rparr>)"
  using assms
proof (induction keys arbitrary: w)
  case Nil
  then show ?case by simp
next
  case (Cons key keys)
  show ?case
  proof (cases "startsWith key ''voting-state-''")
    case False
    have "filter (\<lambda>(k, v). \<not> (k \<in> set (key # keys) \<and> startsWith k ''voting-state-'')) (items w)
          = filter (\<lambda>(k, v). \<not> (k \<in> set keys \<and> startsWith k ''voting-state-'')) (items w)"
      using False by (intro filter_cong) auto
    then show ?thesis
      using False Cons by simp
  next
    case True
    let ?w = "w\<lparr>items := AList.delete key (items w)\<rparr>"
    have t: "\<forall>k. \<not> removeItem_throws ?w k"
      using Cons.prems by simp
    have "filter (\<lambda>(k, v). \<not> (k \<in> set keys \<and> startsWith k ''voting-state-''))
            (AList.delete key (items w))
          = filter (\<lambda>(k, v). \<not> (k \<in> set (key # keys) \<and> startsWith k ''voting-state-''))
              (items w)"
      using True by (auto simp: AList.delete_eq intro!: filter_cong)
    then show ?thesis
      using True Cons.prems Cons.IH [OF t] by (simp add: removeItem_def)
  qed
qed

lemma reset_check_removes_prefix:
  assumes "isResetting ss" and "\<forall>k. \<not> removeItem_throws ss k"
    and "\<forall>k. \<not> removeItem_throws ls k"
  shows "VotingProvider_reset_check ss ls =
           Inr (ss\<lparr>items := AList.delete ''voting-reset-in-progress'' (items ss)\<rparr>,
                ls\<lparr>items := filter (\<lambda>(k, v). \<not> startsWith k ''voting-state-'') (items ls)\<rparr>)"
proof -
  have "filter (\<lambda>(k, v). \<not> (k \<in> set (map fst (items ls)) \<and> startsWith k ''voting-state-''))
          (items ls)
        = filter (\<lambda>(k, v). \<not> startsWith k ''voting-state-'') (items ls)"
    by (intro filter_cong) force+
  then show ?thesis
    using assms
    by (simp add: VotingProvider_reset_check_def removeItem_def remove_stale_keys_filter)
qed

lemma provider_effects_initialState:
  "provider_effects stringify fmt parseDate t0 now (p\<lparr>store := initialState t0\<rparr>)
     = Inr (p\<lparr>store := initialState t0\<rparr>)"
  by (simp add: provider_effects_def persist_effect_def restore_effect_def initialState_def)

text \<open>
  Claim C7, amended. \<open>resetState\<close> puts every field of the store back to its initial
  value, and neither it nor the effects of the commit it causes touch the storage
  adapter or \<^verbatim>\<open>localStorage\<close>. The persisted entries are cleared elsewhere: when
  \<^verbatim>\<open>VotingProvider\<close> renders with the reset flag set, every \<^verbatim>\<open>localStorage\<close> key
  that starts with \<^verbatim>\<open>voting-state-\<close> is removed and the other keys are kept.
\<close>

theorem resetState_initial_fields_storage_kept:
  "resetState t0 now state = initialState t0
   \<and> loading (resetState t0 now state) = False
   \<and> error (resetState t0 now state) = None
   \<and> session (resetState t0 now state) = None
   \<and> contestants (resetState t0 now state) = []
   \<and> votingWindowActive (resetState t0 now state) = False
   \<and> userVoteState (resetState t0 now state) =
       \<lparr>sessionId = [], votedContestants = Set_empty, totalVotes = 0, lastUpdated = Date t0\<rparr>
   \<and> provider_resetState stringify fmt parseDate t0 now p = Inr (p\<lparr>store := initialState t0\<rparr>)
   \<and> (isResetting ss \<and> (\<forall>k. \<not> removeItem_throws ss k) \<and> (\<forall>k. \<not> removeItem_throws ls k) \<longrightarrow>
        VotingProvider_reset_check ss ls =
          Inr (ss\<lparr>items := AList.delete ''voting-reset-in-progress'' (items ss)\<rparr>,
               ls\<lparr>items :=
                 filter (\<lambda>(k, v). \<not> startsWith k ''voting-state-'') (items ls)\<rparr>))"
proof -
  have r: "resetState t0 now state = initialState t0"
    by (simp add: resetState_def)
  have p: "provider_resetState stringify fmt parseDate t0 now p = Inr (p\<lparr>store := initialState t0\<rparr>)"
    by (simp add: provider_resetState_def resetState_def provider_effects_initialState)
  show ?thesis
    using p reset_check_removes_prefix [of ss ls]
    by (simp add: r initialState_def)
qed

text \<open>
  A provider whose user has just voted for \<open>x\<close> in session \<open>s1\<close>, before the
  effects of that commit have run; \<^verbatim>\<open>JSON.stringify\<close> is stood in for by the
  concatenation of the voted ids.
\<close>

definition voted_x :: Provider where
  "voted_x =
     \<lparr>store = fst (addVote 0 20 (\<lambda>r. Resolved)
                (setSession 0 10 (initialState 0) (Some session3)) ''x''),
      adapter =
        \<lparr>val = \<lparr>sessionId = ''s1'', votedContestants = [], totalVotes = 0, lastUpdated = ''T''\<rparr>,
         isSupported = True, storageError = None\<rparr>,
      localStorage =
        Some \<lparr>items = [(''other'', ''1'')], setItem_throws = (\<lambda>key v. False),
              removeItem_throws = (\<lambda>key. False)\<rparr>\<rparr>"

definition reset_requested :: Storage where
  "reset_requested =
     \<lparr>items = [(''voting-reset-in-progress'', ''true'')], setItem_throws = (\<lambda>key v. False),
      removeItem_throws = (\<lambda>key. False)\<rparr>"

definition two_sessions_stored :: Storage where
  "two_sessions_stored =
     \<lparr>items = [(''voting-state-s1'', ''x''), (''other'', ''1''), (''voting-state-s2'', ''y'')],
      setItem_throws = (\<lambda>key v. False), removeItem_throws = (\<lambda>key. False)\<rparr>"

theorem resetState_initial_fields_storage_kept_witness:
  "isResetting reset_requested
   \<and> VotingProvider_reset_check reset_requested two_sessions_stored =
       Inr (reset_requested\<lparr>items := []\<rparr>, two_sessions_stored\<lparr>items := [(''other'', ''1'')]\<rparr>)"
proof -
  have a: "isResetting reset_requested" "\<forall>k. \<not> removeItem_throws reset_requested k"
    "\<forall>k. \<not> removeItem_throws two_sessions_stored k"
    by (simp_all add: isResetting_def getItem_def reset_requested_def two_sessions_stored_def)
  have "VotingProvider_reset_check reset_requested two_sessions_stored =
          Inr (reset_requested\<lparr>items :=
                 AList.delete ''voting-reset-in-progress'' (items reset_requested)\<rparr>,
               two_sessions_stored\<lparr>items :=
                 filter (\<lambda>(k, v). \<not> startsWith k ''voting-state-'')
                   (items two_sessions_stored)\<rparr>)"
    using a resetState_initial_fields_storage_kept
      [where ss = reset_requested and ls = two_sessions_stored]
    by blast
  then show ?thesis
    using a(1) by (simp add: reset_requested_def two_sessions_stored_def startsWith_def)
qed

text \<open>
  The claim as stated fails. After a vote for \<open>x\<close> has been persisted under
  \<^verbatim>\<open>voting-state-s1\<close>, \<open>resetState\<close> and the effects of its commit leave that entry
  in \<^verbatim>\<open>localStorage\<close>; when the session is set again, the restore effect brings the
  vote back.
\<close>

theorem resetState_keeps_persisted_votes:
  "\<exists>p1 p2 p3 w.
     provider_effects (\<lambda>v. Some (concat (votedContestants v))) (\<lambda>t. ''T'') (\<lambda>s. Date 5)
       0 25 voted_x = Inr p1
     \<and> provider_resetState (\<lambda>v. Some (concat (votedContestants v))) (\<lambda>t. ''T'') (\<lambda>s. Date 5)
         0 30 p1 = Inr p2
     \<and> store p2 = initialState 0
     \<and> localStorage p2 = Some w
     \<and> getItem ''voting-state-s1'' w = Some ''x''
     \<and> provider_setSession (\<lambda>v. Some (concat (votedContestants v))) (\<lambda>t. ''T'') (\<lambda>s. Date 5)
         0 40 (Some session3) p2 = Inr p3
     \<and> hasVotedFor (store p3) ''x''"
proof -
  let ?S = "\<lambda>v::SerializableUserVoteState. Some (concat (votedContestants v))"
  let ?F = "\<lambda>t::int. ''T''"
  let ?P = "\<lambda>s::string. Date 5"
  let ?w = "\<lparr>items = [(''other'', ''1''), (''voting-state-s1'', ''x'')],
             setItem_throws = (\<lambda>key v. False), removeItem_throws = (\<lambda>key. False)\<rparr>"
  let ?h = "\<lparr>val = \<lparr>sessionId = ''s1'', votedContestants = [''x''], totalVotes = 1,
                      lastUpdated = ''T''\<rparr>,
             isSupported = True, storageError = None\<rparr>"
  let ?p1 = "\<lparr>store = store voted_x, adapter = ?h, localStorage = Some ?w\<rparr>"
  let ?p2 = "?p1\<lparr>store := initialState 0\<rparr>"
  have st: "store voted_x =
      (setSession 0 10 (initialState 0) (Some session3))
        \<lparr>userVoteState :=
           \<lparr>sessionId = ''s1'', votedContestants = Set_add ''x'' Set_empty, totalVotes = 1,
            lastUpdated = Date 20\<rparr>\<rparr>"
    by (simp add: voted_x_def addVote_def addVote_start_def addVote_finish_def setSession_def
        initialState_def session3_def canVote_def isVotingActive_def
        Set_has.rep_eq Set_empty.rep_eq)
  have e1: "provider_effects ?S ?F ?P 0 25 voted_x = Inr ?p1"
    unfolding provider_effects_def st
    by (simp add: voted_x_def persist_effect_def restore_effect_def serializableState_def
        setSession_def initialState_def session3_def differs_def every_same_at_index_def
        Let_def Array_from_def Set_add.rep_eq Set_empty.rep_eq setStoredValue_def
        setItem_def storageKey_def)
  have e2: "provider_resetState ?S ?F ?P 0 30 ?p1 = Inr ?p2"
    using provider_effects_initialState [of ?S ?F ?P 0 30 ?p1]
    by (simp add: provider_resetState_def resetState_def)
  have g: "getItem ''voting-state-s1'' ?w = Some ''x''"
    by (simp add: getItem_def)
  have "\<exists>p3. provider_setSession ?S ?F ?P 0 40 (Some session3) ?p2 = Inr p3
          \<and> hasVotedFor (store p3) ''x''"
    by (simp add: provider_setSession_def provider_effects_def persist_effect_def
        restore_effect_def serializableState_def restoredUserVoteState_def
        setSession_def initialState_def session3_def differs_def every_same_at_index_def
        Let_def Array_from_def Set_of.rep_eq Set_has.rep_eq Set_empty.rep_eq
        setStoredValue_def setItem_def storageKey_def isVotingActive_def hasVotedFor_def
        split: prod.splits)
  then obtain p3 where e3: "provider_setSession ?S ?F ?P 0 40 (Some session3) ?p2 = Inr p3"
    and h3: "hasVotedFor (store p3) ''x''"
    by blast
  have "store ?p2 = initialState 0" "localStorage ?p2 = Some ?w"
    by simp_all
  with e1 e2 g e3 h3 show ?thesis
    by blast
qed

section \<open>The per-contestant voting hook (hooks/useContestantVoting.ts)\<close>

text \<open>
  The state of one \<^verbatim>\<open>useContestantVoting(contestantId, sessionId)\<close>: its three state
  variables, \<^verbatim>\<open>isMountedRef.current\<close>, the state of its storage adapter (whose value
  is \<^verbatim>\<open>voteState\<close>) and the browser's \<^verbatim>\<open>localStorage\<close>.
\<close>

record VotingHook =
  isVoting :: bool
  voteCount :: int
  voteError :: "VoteError option"
  isMounted :: bool
  voteState :: "SerializableUserVoteState LocalStorageHook"
  browserStorage :: "Storage option"

text \<open>
  What awaiting the hook's \<^verbatim>\<open>submitVote(contestantId)\<close> gives: a response with
  \<^verbatim>\<open>success: true\<close> and a vote count, a response with \<^verbatim>\<open>success: false\<close> and
  an optional error string, or an exception.
\<close>

datatype HookSubmitOutcome =
  Response_success int
  | Response_failure "string option"
  | Submit_threw_Error string
  | Submit_threw_other

definition createVoteError ::
  "string \<Rightarrow> string \<Rightarrow> VoteErrorCode \<Rightarrow> string \<Rightarrow> RetryAction option \<Rightarrow> VoteError" where
  "createVoteError contestantId sid c msg retry =
     \<lparr>type = VOTE_ERROR, message = msg, recoverable = (retry \<noteq> None), retryAction = retry,
      details = Some [(''contestantId'', contestantId), (''sessionId'', sid)],
      code = c, error_contestantId = Some contestantId\<rparr>"

text \<open>\<^verbatim>\<open>voteState.votedContestants.includes(contestantId)\<close>\<close>

definition hasVoted :: "VotingHook \<Rightarrow> string \<Rightarrow> bool" where
  "hasVoted h contestantId = (contestantId \<in> set (votedContestants (val (voteState h))))"

text \<open>\<^verbatim>\<open>setVoteState(v)\<close> is the adapter's \<^verbatim>\<open>setValue\<close> under the key of the session.\<close>

definition setVoteState ::
  "(SerializableUserVoteState \<Rightarrow> string option) \<Rightarrow> string \<Rightarrow> SerializableUserVoteState
     \<Rightarrow> VotingHook \<Rightarrow> VotingHook" where
  "setVoteState stringify sid v h =
     (case setStoredValue stringify (''voting-state-'' @ sid) (Value v)
             (voteState h, browserStorage h) of
        (a, w) \<Rightarrow> h\<lparr>voteState := a, browserStorage := w\<rparr>)"

text \<open>
  \<^verbatim>\<open>vote\<close> is an async function. \<open>vote_start\<close> is its part up to the
  \<^verbatim>\<open>await\<close>: the two guards and the optimistic update; it returns the contestant id
  it is about to submit, if any. \<open>vote_finish\<close> is the continuation, with the
  \<^verbatim>\<open>originalVoteState\<close> and \<^verbatim>\<open>originalVoteCount\<close> the call captured.
\<close>

definition vote_start ::
  "(SerializableUserVoteState \<Rightarrow> string option) \<Rightarrow> (int \<Rightarrow> string) \<Rightarrow> int \<Rightarrow> string \<Rightarrow> string
     \<Rightarrow> VotingHook \<Rightarrow> VotingHook \<times> string option" where
  "vote_start stringify fmt now contestantId sid h =
     (if hasVoted h contestantId then
        (h\<lparr>voteError :=
             Some (createVoteError contestantId sid ALREADY_VOTED
                     ''You have already voted for this contestant'' None)\<rparr>,
         None)
      else if isVoting h then (h, None)
      else
        (let optimisticVoteState =
               (val (voteState h))
                 \<lparr>votedContestants := votedContestants (val (voteState h)) @ [contestantId],
                  totalVotes := totalVotes (val (voteState h)) + 1,
                  lastUpdated := fmt now\<rparr>
         in ((setVoteState stringify sid optimisticVoteState
                (h\<lparr>isVoting := True, voteError := None\<rparr>))
               \<lparr>voteCount := voteCount h + 1\<rparr>,
             Some contestantId)))"

text \<open>The error code and message chosen for a response with \<^verbatim>\<open>success: false\<close>.\<close>

definition response_error :: "string option \<Rightarrow> VoteErrorCode \<times> string" where
  "response_error err =
     (if err = Some ''VOTE_LIMIT_EXCEEDED'' then
        (VOTE_LIMIT_EXCEEDED, ''You have reached your voting limit'')
      else if err = Some ''VOTING_CLOSED'' then (VOTING_CLOSED, ''Voting window has closed'')
      else if err = Some ''CONTESTANT_INACTIVE'' then
        (CONTESTANT_INACTIVE, ''This contestant is no longer active'')
      else
        (INVALID_CONTESTANT,
         (case err of
            None \<Rightarrow> ''Failed to submit vote''
          | Some e \<Rightarrow> if e = [] then ''Failed to submit vote'' else e)))"

text \<open>``Rollback optimistic update''\<close>

definition rollback ::
  "(SerializableUserVoteState \<Rightarrow> string option) \<Rightarrow> string \<Rightarrow> SerializableUserVoteState \<Rightarrow> int
     \<Rightarrow> VotingHook \<Rightarrow> VotingHook" where
  "rollback stringify sid originalVoteState originalVoteCount h =
     (setVoteState stringify sid originalVoteState h)\<lparr>voteCount := originalVoteCount\<rparr>"

definition vote_finish ::
  "(SerializableUserVoteState \<Rightarrow> string option) \<Rightarrow> string \<Rightarrow> string
     \<Rightarrow> SerializableUserVoteState \<Rightarrow> int \<Rightarrow> HookSubmitOutcome \<Rightarrow> VotingHook \<Rightarrow> VotingHook" where
  "vote_finish stringify contestantId sid originalVoteState originalVoteCount outcome h =
     (if \<not> isMounted h then h
      else
        (case outcome of
           Response_success n \<Rightarrow> h\<lparr>voteCount := n, isVoting := False\<rparr>
         | Response_failure err \<Rightarrow>
             (rollback stringify sid originalVoteState originalVoteCount h)
               \<lparr>voteError :=
                  Some (createVoteError contestantId sid (fst (response_error err))
                          (snd (response_error err)) (Some (Retry_vote contestantId))),
                isVoting := False\<rparr>
         | Submit_threw_Error msg \<Rightarrow>
             (rollback stringify sid originalVoteState originalVoteCount h)
               \<lparr>voteError :=
                  Some (createVoteError contestantId sid NETWORK_FAILURE msg
                          (Some (Retry_vote contestantId))),
                isVoting := False\<rparr>
         | Submit_threw_other \<Rightarrow>
             (rollback stringify sid originalVoteState originalVoteCount h)
               \<lparr>voteError :=
                  Some (createVoteError contestantId sid NETWORK_FAILURE
                          ''Network error occurred'' (Some (Retry_vote contestantId))),
                isVoting := False\<rparr>))"

definition vote ::
  "(SerializableUserVoteState \<Rightarrow> string option) \<Rightarrow> (int \<Rightarrow> string) \<Rightarrow> int \<Rightarrow> string \<Rightarrow> string
     \<Rightarrow> (string \<Rightarrow> HookSubmitOutcome) \<Rightarrow> VotingHook \<Rightarrow> VotingHook \<times> string option" where
  "vote stringify fmt now contestantId sid submitVote h =
     (case vote_start stringify fmt now contestantId sid h of
        (h', None) \<Rightarrow> (h', None)
      | (h', Some request) \<Rightarrow>
          (vote_finish stringify contestantId sid (val (voteState h)) (voteCount h)
             (submitVote request) h',
           Some request))"

section \<open>The vote button of a contestant card (components/ContestantCard.tsx)\<close>

text \<open>
  \<^verbatim>\<open>handleVote\<close> up to its \<^verbatim>\<open>await addVote(contestant.id)\<close>: the card's
  \<^verbatim>\<open>isVoting\<close> flag afterwards, the store's state and the request submitted, if any.
\<close>

definition handleVote_start ::
  "int \<Rightarrow> int \<Rightarrow> bool \<Rightarrow> bool \<Rightarrow> Contestant \<Rightarrow> VotingState
     \<Rightarrow> bool \<times> VotingState \<times> VoteRequest option" where
  "handleVote_start t0 now votingEnabled cardIsVoting contestant state =
     (if \<not> votingEnabled \<or> hasVotedFor state (contestant_id contestant) \<or> cardIsVoting
         \<or> \<not> contestant_isActive contestant
      then (cardIsVoting, state, None)
      else (True, addVote_start t0 now state (contestant_id contestant)))"

subsection \<open>Facts about the adapter's write and the hook's state\<close>

lemma setStoredValue_Value_val: "val (fst (setStoredValue stringify key (Value v) (a, w))) = v"
  by (simp add: setStoredValue_def split: option.splits sum.splits)

lemma setStoredValue_Value_isSupported:
  "isSupported (fst (setStoredValue stringify key (Value v) (a, w))) = isSupported a"
  by (simp add: setStoredValue_def split: option.splits sum.splits)

lemma setStoredValue_writes:
  assumes "isSupported a" and "stringify v = Some json" and "\<not> setItem_throws w key json"
  shows "setStoredValue stringify key (Value v) (a, Some w) =
           (a\<lparr>val := v, storageError := None\<rparr>,
            Some (w\<lparr>items := AList.update key json (items w)\<rparr>))"
  using assms by (simp add: setStoredValue_def setItem_def)

lemma setVoteState_fields [simp]:
  "isVoting (setVoteState stringify sid v h) = isVoting h"
  "voteCount (setVoteState stringify sid v h) = voteCount h"
  "voteError (setVoteState stringify sid v h) = voteError h"
  "isMounted (setVoteState stringify sid v h) = isMounted h"
  by (simp_all add: setVoteState_def split: prod.splits)

lemma setVoteState_val [simp]: "val (voteState (setVoteState stringify sid v h)) = v"
proof -
  obtain a w where e: "setStoredValue stringify (''voting-state-'' @ sid) (Value v)
      (voteState h, browserStorage h) = (a, w)"
    by (cases "setStoredValue stringify (''voting-state-'' @ sid) (Value v)
      (voteState h, browserStorage h)")
  have "val (fst (setStoredValue stringify (''voting-state-'' @ sid) (Value v)
      (voteState h, browserStorage h))) = v"
    by (rule setStoredValue_Value_val)
  then have "val a = v"
    unfolding e by simp
  then show ?thesis
    unfolding setVoteState_def e by simp
qed

lemma setVoteState_adapter:
  "(voteState (setVoteState stringify sid v h), browserStorage (setVoteState stringify sid v h))
     = setStoredValue stringify (''voting-state-'' @ sid) (Value v)
         (voteState h, browserStorage h)"
  by (simp add: setVoteState_def split: prod.splits)

lemma vote_start_optimistic:
  assumes "\<not> hasVoted h c" and "\<not> isVoting h"
  shows "vote_start stringify fmt now c sid h =
           ((setVoteState stringify sid
               ((val (voteState h))
                  \<lparr>votedContestants := votedContestants (val (voteState h)) @ [c],
                   totalVotes := totalVotes (val (voteState h)) + 1,
                   lastUpdated := fmt now\<rparr>)
               (h\<lparr>isVoting := True, voteError := None\<rparr>))
              \<lparr>voteCount := voteCount h + 1\<rparr>,
            Some c)"
  using assms by (simp add: vote_start_def Let_def)

lemma vote_already_voted:
  assumes "hasVoted h c"
  shows "vote stringify fmt now c sid submitVote h =
           (h\<lparr>voteError :=
                Some (createVoteError c sid ALREADY_VOTED
                        ''You have already voted for this contestant'' None)\<rparr>,
            None)"
  using assms by (simp add: vote_def vote_start_def)

lemma vote_finish_failure:
  assumes "isMounted h1" and "\<forall>n. outcome \<noteq> Response_success n"
  shows "val (voteState (vote_finish stringify c sid original count outcome h1)) = original"
    and "voteCount (vote_finish stringify c sid original count outcome h1) = count"
    and "\<not> isVoting (vote_finish stringify c sid original count outcome h1)"
    and "(voteState (vote_finish stringify c sid original count outcome h1),
          browserStorage (vote_finish stringify c sid original count outcome h1))
           = setStoredValue stringify (''voting-state-'' @ sid) (Value original)
               (voteState h1, browserStorage h1)"
    and "\<exists>e. voteError (vote_finish stringify c sid original count outcome h1) = Some e
             \<and> recoverable e \<and> retryAction e = Some (Retry_vote c)
             \<and> error_contestantId e = Some c"
  using assms
  by (cases outcome; simp add: vote_finish_def createVoteError_def rollback_def
      setVoteState_adapter)+

lemma getItem_after_write:
  assumes "isSupported a" and "stringify v = Some json" and "\<forall>k x. \<not> setItem_throws w k x"
    and "setStoredValue stringify key (Value v) (a, Some w) = (a', w')"
  shows "isSupported a' \<and> (\<exists>u. w' = Some u \<and> getItem key u = Some json
           \<and> (\<forall>k x. \<not> setItem_throws u k x))"
  using assms by (auto simp: setStoredValue_def setItem_def getItem_def update_conv')

text \<open>
  Claim C2, amended. The optimistic update with rollback is the protocol of the
  per-contestant hook's \<open>vote\<close>. A call that passes its two guards first appends the
  contestant to the voted list, increments \<open>totalVotes\<close>, sets the timestamp and
  writes this state through the storage adapter, and only then submits; when the
  submission fails while the hook is mounted, the captured prior vote state is written
  back through the adapter, the prior vote count is restored and the error set is
  recoverable with the retry action \<open>vote\<close> for the same contestant. With a storage
  that accepts writes, the entry of the session holds the serialized optimistic state
  while the submission is pending and the serialized prior state after the rollback.
  The store's \<open>addVote\<close> is not optimistic: it submits with its state unchanged,
  dispatches \<open>ADD_VOTE\<close> when the submission has succeeded, and on failure sets a
  recoverable error that carries no retry action.
\<close>

theorem vote_optimistic_update_rollback:
  fixes h :: VotingHook and state :: VotingState and fmt :: "int \<Rightarrow> string" and now :: int
    and c :: string and sid :: string
    and stringify :: "SerializableUserVoteState \<Rightarrow> string option"
  assumes "\<not> hasVoted h c" and "\<not> isVoting h" and "isMounted h"
  defines "original \<equiv> val (voteState h)"
  defines "optimistic \<equiv>
     original\<lparr>votedContestants := votedContestants original @ [c],
              totalVotes := totalVotes original + 1, lastUpdated := fmt now\<rparr>"
  defines "h1 \<equiv> fst (vote_start stringify fmt now c sid h)"
  shows "snd (vote_start stringify fmt now c sid h) = Some c
    \<and> val (voteState h1) = optimistic
    \<and> (voteState h1, browserStorage h1) =
        setStoredValue stringify (''voting-state-'' @ sid) (Value optimistic)
          (voteState h, browserStorage h)
    \<and> voteCount h1 = voteCount h + 1
    \<and> isVoting h1
    \<and> (\<forall>outcome. (\<forall>n. outcome \<noteq> Response_success n) \<longrightarrow>
          val (voteState (vote_finish stringify c sid original (voteCount h) outcome h1))
            = original
          \<and> voteCount (vote_finish stringify c sid original (voteCount h) outcome h1)
              = voteCount h
          \<and> (voteState (vote_finish stringify c sid original (voteCount h) outcome h1),
              browserStorage (vote_finish stringify c sid original (voteCount h) outcome h1))
              = setStoredValue stringify (''voting-state-'' @ sid) (Value original)
                  (voteState h1, browserStorage h1)
          \<and> (\<exists>e. voteError (vote_finish stringify c sid original (voteCount h) outcome h1)
                    = Some e
                  \<and> recoverable e \<and> retryAction e = Some (Retry_vote c)))
    \<and> (isSupported (voteState h) \<and> browserStorage h = Some w
         \<and> stringify optimistic = Some pending \<and> stringify original = Some prior
         \<and> (\<forall>k x. \<not> setItem_throws w k x) \<longrightarrow>
          (\<exists>w1. browserStorage h1 = Some w1
                 \<and> getItem (''voting-state-'' @ sid) w1 = Some pending)
          \<and> (\<forall>outcome. (\<forall>n. outcome \<noteq> Response_success n) \<longrightarrow>
               (\<exists>w2. browserStorage
                        (vote_finish stringify c sid original (voteCount h) outcome h1)
                        = Some w2
                      \<and> getItem (''voting-state-'' @ sid) w2 = Some prior)))
    \<and> (\<not> hasVotedFor state c \<and> canVote state \<longrightarrow>
          fst (addVote_start t0 now' state c) = state
          \<and> snd (addVote_start t0 now' state c) \<noteq> None
          \<and> addVote_finish t0 now' state c Resolved = votingReducer t0 now' state (ADD_VOTE c)
          \<and> (\<forall>msg. addVote_finish t0 now' state c (Threw_Error msg) =
                state\<lparr>error :=
                  Some \<lparr>type = VOTE_ERROR, message = msg, recoverable = True,
                        retryAction = None, details = None\<rparr>\<rparr>))"
proof -
  have start: "vote_start stringify fmt now c sid h =
      ((setVoteState stringify sid optimistic (h\<lparr>isVoting := True, voteError := None\<rparr>))
         \<lparr>voteCount := voteCount h + 1\<rparr>, Some c)"
    using assms(1,2) unfolding optimistic_def original_def by (rule vote_start_optimistic)
  have h1: "h1 = (setVoteState stringify sid optimistic (h\<lparr>isVoting := True, voteError := None\<rparr>))
         \<lparr>voteCount := voteCount h + 1\<rparr>"
    unfolding h1_def start by simp
  have p1: "(voteState h1, browserStorage h1) =
        setStoredValue stringify (''voting-state-'' @ sid) (Value optimistic)
          (voteState h, browserStorage h)"
    using setVoteState_adapter [of stringify sid optimistic "h\<lparr>isVoting := True, voteError := None\<rparr>"]
    by (simp add: h1)
  have m1: "isMounted h1"
    using assms(3) by (simp add: h1)
  have fin: "(\<forall>n. outcome \<noteq> Response_success n) \<Longrightarrow>
          val (voteState (vote_finish stringify c sid original (voteCount h) outcome h1))
            = original
          \<and> voteCount (vote_finish stringify c sid original (voteCount h) outcome h1)
              = voteCount h
          \<and> (voteState (vote_finish stringify c sid original (voteCount h) outcome h1),
              browserStorage (vote_finish stringify c sid original (voteCount h) outcome h1))
              = setStoredValue stringify (''voting-state-'' @ sid) (Value original)
                  (voteState h1, browserStorage h1)
          \<and> (\<exists>e. voteError (vote_finish stringify c sid original (voteCount h) outcome h1)
                    = Some e
                  \<and> recoverable e \<and> retryAction e = Some (Retry_vote c))" for outcome
    using vote_finish_failure [OF m1, of outcome stringify c sid original "voteCount h"]
    by blast
  have stored: "(\<exists>w1. browserStorage h1 = Some w1
                 \<and> getItem (''voting-state-'' @ sid) w1 = Some pending)
          \<and> (\<forall>outcome. (\<forall>n. outcome \<noteq> Response_success n) \<longrightarrow>
               (\<exists>w2. browserStorage
                        (vote_finish stringify c sid original (voteCount h) outcome h1)
                        = Some w2
                      \<and> getItem (''voting-state-'' @ sid) w2 = Some prior))"
    if a: "isSupported (voteState h)" "browserStorage h = Some w"
      "stringify optimistic = Some pending" "stringify original = Some prior"
      "\<forall>k x. \<not> setItem_throws w k x"
  proof -
    have "setStoredValue stringify (''voting-state-'' @ sid) (Value optimistic)
            (voteState h, Some w) = (voteState h1, browserStorage h1)"
      using p1 a(2) by simp
    from getItem_after_write [OF a(1,3,5) this]
    obtain w1 where w1: "isSupported (voteState h1)" "browserStorage h1 = Some w1"
      "getItem (''voting-state-'' @ sid) w1 = Some pending" "\<forall>k x. \<not> setItem_throws w1 k x"
      by blast
    have "\<exists>w2. browserStorage (vote_finish stringify c sid original (voteCount h) outcome h1)
                  = Some w2
                \<and> getItem (''voting-state-'' @ sid) w2 = Some prior"
      if f: "\<forall>n. outcome \<noteq> Response_success n" for outcome
    proof -
      let ?h2 = "vote_finish stringify c sid original (voteCount h) outcome h1"
      have "setStoredValue stringify (''voting-state-'' @ sid) (Value original)
              (voteState h1, Some w1) = (voteState ?h2, browserStorage ?h2)"
        using fin [OF f] w1(2) by simp
      from getItem_after_write [OF w1(1) a(4) w1(4) this]
      show ?thesis by blast
    qed
    with w1 show ?thesis by blast
  qed
  have store: "fst (addVote_start t0 now' state c) = state
          \<and> snd (addVote_start t0 now' state c) \<noteq> None
          \<and> addVote_finish t0 now' state c Resolved = votingReducer t0 now' state (ADD_VOTE c)
          \<and> (\<forall>msg. addVote_finish t0 now' state c (Threw_Error msg) =
                state\<lparr>error :=
                  Some \<lparr>type = VOTE_ERROR, message = msg, recoverable = True,
                        retryAction = None, details = None\<rparr>\<rparr>)"
    if "\<not> hasVotedFor state c" "canVote state"
    using that
    by (simp add: addVote_start_def addVote_finish_def hasVotedFor_def setError_def
        vote_error_def)
  have v1: "val (voteState h1) = optimistic" "voteCount h1 = voteCount h + 1" "isVoting h1"
    by (simp_all add: h1)
  show ?thesis
    using start v1 p1 fin stored store by (intro conjI allI impI) simp_all
qed

text \<open>
  A mounted hook for session \<open>s1\<close> with no votes and an empty, writable storage;
  \<^verbatim>\<open>JSON.stringify\<close> is stood in for by the concatenation of the voted ids.
\<close>

definition fresh_hook :: VotingHook where
  "fresh_hook =
     \<lparr>isVoting = False, voteCount = 0, voteError = None, isMounted = True,
      voteState =
        \<lparr>val = \<lparr>sessionId = ''s1'', votedContestants = [], totalVotes = 0, lastUpdated = ''T0''\<rparr>,
         isSupported = True, storageError = None\<rparr>,
      browserStorage =
        Some \<lparr>items = [], setItem_throws = (\<lambda>key v. False), removeItem_throws = (\<lambda>key. False)\<rparr>\<rparr>"

theorem vote_optimistic_update_rollback_witness:
  "\<not> hasVoted fresh_hook ''x'' \<and> \<not> isVoting fresh_hook \<and> isMounted fresh_hook
   \<and> val (voteState (fst (vote_start (\<lambda>v. Some (concat (votedContestants v))) (\<lambda>t. ''T'')
        20 ''x'' ''s1'' fresh_hook)))
      = \<lparr>sessionId = ''s1'', votedContestants = [''x''], totalVotes = 1, lastUpdated = ''T''\<rparr>
   \<and> val (voteState
        (vote_finish (\<lambda>v. Some (concat (votedContestants v))) ''x'' ''s1''
           \<lparr>sessionId = ''s1'', votedContestants = [], totalVotes = 0, lastUpdated = ''T0''\<rparr> 0
           (Submit_threw_Error ''Network error: Failed to submit vote'')
           (fst (vote_start (\<lambda>v. Some (concat (votedContestants v))) (\<lambda>t. ''T'')
              20 ''x'' ''s1'' fresh_hook))))
      = \<lparr>sessionId = ''s1'', votedContestants = [], totalVotes = 0, lastUpdated = ''T0''\<rparr>"
proof -
  have a: "\<not> hasVoted fresh_hook ''x''" "\<not> isVoting fresh_hook" "isMounted fresh_hook"
    by (simp_all add: fresh_hook_def hasVoted_def)
  have v: "val (voteState fresh_hook) =
      \<lparr>sessionId = ''s1'', votedContestants = [], totalVotes = 0, lastUpdated = ''T0''\<rparr>"
    "voteCount fresh_hook = 0"
    by (simp_all add: fresh_hook_def)
  note t = vote_optimistic_update_rollback
    [OF a, where stringify = "\<lambda>v. Some (concat (votedContestants v))" and fmt = "\<lambda>t. ''T''"
       and now = 20 and sid = "''s1''"]
  have f: "\<forall>n. Submit_threw_Error ''Network error: Failed to submit vote'' \<noteq> Response_success n"
    by simp
  show ?thesis
    using a t [THEN conjunct2, THEN conjunct1]
      t [THEN conjunct2, THEN conjunct2, THEN conjunct2, THEN conjunct2, THEN conjunct2,
         THEN conjunct1, THEN spec, THEN mp, OF f, THEN conjunct1]
    by (simp add: v)
qed

text \<open>
  The claim as stated fails for the store's \<open>addVote\<close>. When it submits, the voted
  set and the counter are still as before the call, and the error it sets when the
  submission fails carries no retry action.
\<close>

theorem addVote_not_optimistic_no_retry:
  "snd (addVote_start 0 20 (setSession 0 10 (initialState 0) (Some session3)) ''x'') \<noteq> None
   \<and> \<not> hasVotedFor
        (fst (addVote_start 0 20 (setSession 0 10 (initialState 0) (Some session3)) ''x'')) ''x''
   \<and> totalVotes (userVoteState
        (fst (addVote_start 0 20 (setSession 0 10 (initialState 0) (Some session3)) ''x''))) = 0
   \<and> map_option recoverable
        (error (fst (addVote 0 20 (\<lambda>r. Threw_Error ''Network timeout'')
           (setSession 0 10 (initialState 0) (Some session3)) ''x''))) = Some True
   \<and> map_option retryAction
        (error (fst (addVote 0 20 (\<lambda>r. Threw_Error ''Network timeout'')
           (setSession 0 10 (initialState 0) (Some session3)) ''x''))) = Some None"
  by (simp add: addVote_def addVote_start_def addVote_finish_def setSession_def setError_def
      initialState_def session3_def canVote_def isVotingActive_def hasVotedFor_def
      vote_error_def Set_has.rep_eq Set_empty.rep_eq)

text \<open>
  Claim C5, amended. The in-flight guard is the \<^verbatim>\<open>isVoting\<close> flag of the callers,
  not the store. While the hook's flag is set, \<open>vote\<close> submits nothing and leaves the
  vote state, the storage and the vote count as they are: it returns at once, or, when
  the voted list already holds the contestant, sets the already-voted error. While a
  card's flag is set, \<open>handleVote\<close> returns without calling \<open>addVote\<close>. The store's
  \<open>addVote\<close> keeps no record of a pending submission: its state is unchanged while
  the submission is pending, so a repeat call passes the same validations and submits
  the same request again.
\<close>

theorem isVoting_guard_no_second_submission:
  assumes "isVoting h"
  shows "snd (vote_start stringify fmt now c sid h) = None
    \<and> voteState (fst (vote_start stringify fmt now c sid h)) = voteState h
    \<and> browserStorage (fst (vote_start stringify fmt now c sid h)) = browserStorage h
    \<and> voteCount (fst (vote_start stringify fmt now c sid h)) = voteCount h
    \<and> isVoting (fst (vote_start stringify fmt now c sid h))
    \<and> fst (vote_start stringify fmt now c sid h) =
        (if hasVoted h c then
           h\<lparr>voteError :=
               Some (createVoteError c sid ALREADY_VOTED
                       ''You have already voted for this contestant'' None)\<rparr>
         else h)
    \<and> handleVote_start t0 now' votingEnabled True contestant state = (True, state, None)
    \<and> (\<not> hasVotedFor state c \<and> canVote state \<longrightarrow>
          fst (addVote_start t0 now' state c) = state
          \<and> snd (addVote_start t0 now' state c) \<noteq> None
          \<and> addVote_start t0 now'' (fst (addVote_start t0 now' state c)) c =
              addVote_start t0 now' state c)"
proof -
  have hook: "vote_start stringify fmt now c sid h =
      ((if hasVoted h c then
           h\<lparr>voteError :=
               Some (createVoteError c sid ALREADY_VOTED
                       ''You have already voted for this contestant'' None)\<rparr>
         else h), None)"
    using assms by (simp add: vote_start_def)
  have card: "handleVote_start t0 now' votingEnabled True contestant state = (True, state, None)"
    by (simp add: handleVote_start_def)
  have store: "fst (addVote_start t0 now' state c) = state
          \<and> snd (addVote_start t0 now' state c) \<noteq> None
          \<and> addVote_start t0 now'' (fst (addVote_start t0 now' state c)) c =
              addVote_start t0 now' state c"
    if "\<not> hasVotedFor state c" "canVote state"
    using that by (simp add: addVote_start_def hasVotedFor_def)
  have hk: "snd (vote_start stringify fmt now c sid h) = None
    \<and> voteState (fst (vote_start stringify fmt now c sid h)) = voteState h
    \<and> browserStorage (fst (vote_start stringify fmt now c sid h)) = browserStorage h
    \<and> voteCount (fst (vote_start stringify fmt now c sid h)) = voteCount h
    \<and> isVoting (fst (vote_start stringify fmt now c sid h))
    \<and> fst (vote_start stringify fmt now c sid h) =
        (if hasVoted h c then
           h\<lparr>voteError :=
               Some (createVoteError c sid ALREADY_VOTED
                       ''You have already voted for this contestant'' None)\<rparr>
         else h)"
    using assms by (simp add: hook)
  show ?thesis
    using hk card store by blast
qed

text \<open>
  The theorem at the hook whose vote for \<open>x\<close> is in flight: the repeat call sets
  the already-voted error and submits nothing.
\<close>

theorem isVoting_guard_no_second_submission_witness:
  "isVoting (fst (vote_start (\<lambda>v. Some (concat (votedContestants v))) (\<lambda>t. ''T'')
       20 ''x'' ''s1'' fresh_hook))
   \<and> snd (vote_start (\<lambda>v. Some (concat (votedContestants v))) (\<lambda>t. ''T'') 21 ''x'' ''s1''
        (fst (vote_start (\<lambda>v. Some (concat (votedContestants v))) (\<lambda>t. ''T'')
           20 ''x'' ''s1'' fresh_hook))) = None
   \<and> map_option code
        (voteError (fst (vote_start (\<lambda>v. Some (concat (votedContestants v))) (\<lambda>t. ''T'')
           21 ''x'' ''s1''
           (fst (vote_start (\<lambda>v. Some (concat (votedContestants v))) (\<lambda>t. ''T'')
              20 ''x'' ''s1'' fresh_hook))))) = Some ALREADY_VOTED"
proof -
  let ?h1 = "fst (vote_start (\<lambda>v. Some (concat (votedContestants v))) (\<lambda>t. ''T'')
       20 ''x'' ''s1'' fresh_hook)"
  have a: "\<not> hasVoted fresh_hook ''x''" "\<not> isVoting fresh_hook"
    by (simp_all add: fresh_hook_def hasVoted_def)
  have s: "vote_start (\<lambda>v. Some (concat (votedContestants v))) (\<lambda>t. ''T'')
       20 ''x'' ''s1'' fresh_hook =
      ((setVoteState (\<lambda>v. Some (concat (votedContestants v))) ''s1''
               ((val (voteState fresh_hook))
                  \<lparr>votedContestants := votedContestants (val (voteState fresh_hook)) @ [''x''],
                   totalVotes := totalVotes (val (voteState fresh_hook)) + 1,
                   lastUpdated := ''T''\<rparr>)
               (fresh_hook\<lparr>isVoting := True, voteError := None\<rparr>))
              \<lparr>voteCount := voteCount fresh_hook + 1\<rparr>,
            Some ''x'')"
    using a by (rule vote_start_optimistic)
  have i: "isVoting ?h1" and v: "hasVoted ?h1 ''x''"
    unfolding s by (simp_all add: hasVoted_def)
  show ?thesis
    using i v
      isVoting_guard_no_second_submission
        [OF i, where stringify = "\<lambda>v. Some (concat (votedContestants v))" and fmt = "\<lambda>t. ''T''"
           and now = 21 and c = "''x''" and sid = "''s1''"]
    by (simp add: createVoteError_def)
qed

text \<open>
  The claim as stated fails for the store's \<open>addVote\<close>. A second call for \<open>x\<close>
  made while the first submission is pending submits again; when both submissions
  succeed, \<open>ADD_VOTE\<close> is dispatched twice and the counter is 2 for a set of one.
\<close>

theorem addVote_repeat_in_flight_submits_again:
  "snd (addVote_start 0 20 (setSession 0 10 (initialState 0) (Some session3)) ''x'') \<noteq> None
   \<and> snd (addVote_start 0 21
        (fst (addVote_start 0 20 (setSession 0 10 (initialState 0) (Some session3)) ''x''))
        ''x'') \<noteq> None
   \<and> totalVotes (userVoteState
        (addVote_finish 0 31
           (addVote_finish 0 30
              (fst (addVote_start 0 21
                 (fst (addVote_start 0 20
                    (setSession 0 10 (initialState 0) (Some session3)) ''x'')) ''x''))
              ''x'' Resolved)
           ''x'' Resolved)) = 2
   \<and> Set_size (votedContestants (userVoteState
        (addVote_finish 0 31
           (addVote_finish 0 30
              (fst (addVote_start 0 21
                 (fst (addVote_start 0 20
                    (setSession 0 10 (initialState 0) (Some session3)) ''x'')) ''x''))
              ''x'' Resolved)
           ''x'' Resolved))) = 1"
  by (simp add: addVote_start_def addVote_finish_def setSession_def setError_def
      initialState_def session3_def canVote_def isVotingActive_def hasVotedFor_def
      Set_has.rep_eq Set_empty.rep_eq Set_add.rep_eq Set_size.rep_eq)

section \<open>The polling controller (hooks/usePolling.ts)\<close>

text \<open>
  An interval timer of the platform: its handle, its period and the time since it was
  created or last fired, in milliseconds. \<^verbatim>\<open>setInterval\<close> is taken as an ideal
  periodic timer (it fires each time a full period has passed; a period of 0 counts as
  1); its handle is an object, so it is never falsy.
\<close>

record Timer =
  timer_id :: nat
  timer_interval :: nat
  timer_elapsed :: nat

text \<open>The options of the hook, with \<open>onError\<close> saying whether a handler was given.\<close>

record PollingOptions =
  interval :: nat
  enabled :: bool
  immediate :: bool
  onError :: bool

text \<open>
  The state of one \<^verbatim>\<open>usePolling\<close>: \<^verbatim>\<open>isPolling\<close>, \<^verbatim>\<open>error\<close> (here
  \<open>pollError\<close>, the error's message), \<^verbatim>\<open>intervalRef.current\<close>,
  \<^verbatim>\<open>isMountedRef.current\<close>, whether \<^verbatim>\<open>onErrorRef.current\<close> holds a handler; the
  platform's running interval timers and its pending zero-delay timeouts (each holds
  the options of the \<^verbatim>\<open>start\<close> closure it will call); the options and the value of
  \<^verbatim>\<open>isPolling\<close> of the last render whose effects have run (\<open>None\<close> before the
  first); and, to count them, the number of invocations of the callback and the errors
  passed to the handler.
\<close>

record Polling =
  isPolling :: bool
  pollError :: "string option"
  intervalRef :: "nat option"
  isMountedRef :: bool
  onErrorRef :: bool
  timers :: "Timer list"
  next_timer_id :: nat
  timeouts :: "PollingOptions list"
  rendered :: "(PollingOptions \<times> bool) option"
  calls :: nat
  reported :: "string list"

text \<open>
  \<^verbatim>\<open>executeCallback\<close>. The callback is the parameter \<open>callback\<close>: given the number
  of earlier invocations, it resolves (\<open>None\<close>) or rejects with an error message.
\<close>

definition executeCallback :: "(nat \<Rightarrow> string option) \<Rightarrow> Polling \<Rightarrow> Polling" where
  "executeCallback callback p =
     (if \<not> isMountedRef p then p
      else
        (case callback (calls p) of
           None \<Rightarrow> p\<lparr>calls := calls p + 1, pollError := None\<rparr>
         | Some msg \<Rightarrow>
             p\<lparr>calls := calls p + 1, pollError := Some msg,
               reported := (if onErrorRef p then reported p @ [msg] else reported p)\<rparr>))"

definition setInterval :: "nat \<Rightarrow> Polling \<Rightarrow> Polling" where
  "setInterval ms p =
     p\<lparr>intervalRef := Some (next_timer_id p),
       timers := timers p @
         [\<lparr>timer_id = next_timer_id p, timer_interval = ms, timer_elapsed = 0\<rparr>],
       next_timer_id := next_timer_id p + 1\<rparr>"

definition clearInterval :: "nat \<Rightarrow> Polling \<Rightarrow> Polling" where
  "clearInterval i p = p\<lparr>timers := filter (\<lambda>t. timer_id t \<noteq> i) (timers p)\<rparr>"

text \<open>\<^verbatim>\<open>start\<close>, as the closure of a render with the options \<open>opts\<close>.\<close>

definition start :: "PollingOptions \<Rightarrow> (nat \<Rightarrow> string option) \<Rightarrow> Polling \<Rightarrow> Polling" where
  "start opts callback p =
     (if \<not> isMountedRef p then p
      else if intervalRef p \<noteq> None then p
      else
        (let p1 = p\<lparr>isPolling := True, pollError := None\<rparr>;
             p2 = (if immediate opts then executeCallback callback p1 else p1)
         in setInterval (interval opts) p2))"

definition stop :: "Polling \<Rightarrow> Polling" where
  "stop p =
     (if \<not> isMountedRef p then p
      else
        (case intervalRef p of
           Some i \<Rightarrow> (clearInterval i p)\<lparr>intervalRef := None\<rparr>
         | None \<Rightarrow> p)
          \<lparr>isPolling := False\<rparr>)"

text \<open>
  \<^verbatim>\<open>restart\<close>: \<^verbatim>\<open>stop()\<close>, then a zero-delay timeout that will call
  \<^verbatim>\<open>start()\<close> if the hook is still mounted.
\<close>

definition restart :: "PollingOptions \<Rightarrow> Polling \<Rightarrow> Polling" where
  "restart opts p = (stop p)\<lparr>timeouts := timeouts (stop p) @ [opts]\<rparr>"

definition run_timeout ::
  "(nat \<Rightarrow> string option) \<Rightarrow> PollingOptions \<Rightarrow> Polling \<Rightarrow> Polling" where
  "run_timeout callback opts p = (if isMountedRef p then start opts callback p else p)"

text \<open>
  One render with the options \<open>opts\<close> and the effects of its commit, in the order of
  the source. The effects are closures of the render, so all of them see the
  \<^verbatim>\<open>isPolling\<close> the render saw. An effect runs when one of its dependencies differs
  from the previous render's; \<^verbatim>\<open>start\<close> and \<^verbatim>\<open>restart\<close> are new closures when
  \<^verbatim>\<open>interval\<close> or \<^verbatim>\<open>immediate\<close> differ.
  \<^item> ``Auto-start/stop based on enabled option'', dependencies
    \<^verbatim>\<open>[enabled, start, stop]\<close>: \<^verbatim>\<open>start()\<close> when enabled, \<^verbatim>\<open>stop()\<close> otherwise.
  \<^item> ``Handle interval changes'', dependencies \<^verbatim>\<open>[interval, isPolling, restart]\<close>:
    \<^verbatim>\<open>restart()\<close> when the render saw \<^verbatim>\<open>isPolling\<close> true.
\<close>

definition auto_start_deps_changed :: "(PollingOptions \<times> bool) option \<Rightarrow> PollingOptions \<Rightarrow> bool" where
  "auto_start_deps_changed prev opts =
     (case prev of
        None \<Rightarrow> True
      | Some (o', r') \<Rightarrow>
          (enabled o', interval o', immediate o') \<noteq> (enabled opts, interval opts, immediate opts))"

definition interval_deps_changed ::
  "(PollingOptions \<times> bool) option \<Rightarrow> PollingOptions \<Rightarrow> bool \<Rightarrow> bool" where
  "interval_deps_changed prev opts r =
     (case prev of
        None \<Rightarrow> True
      | Some (o', r') \<Rightarrow>
          (interval o', r', immediate o') \<noteq> (interval opts, r, immediate opts))"

definition render :: "PollingOptions \<Rightarrow> (nat \<Rightarrow> string option) \<Rightarrow> Polling \<Rightarrow> Polling" where
  "render opts callback p =
     (if \<not> isMountedRef p then p
      else
        (let r = isPolling p;
             p0 = p\<lparr>onErrorRef := onError opts\<rparr>;
             p1 = (if auto_start_deps_changed (rendered p) opts then
                     (if enabled opts then start opts callback p0 else stop p0)
                   else p0);
             p2 = (if interval_deps_changed (rendered p) opts r \<and> r then restart opts p1
                   else p1)
         in p2\<lparr>rendered := Some (opts, r)\<rparr>))"

text \<open>
  The passing of \<open>d\<close> milliseconds: the pending zero-delay timeouts run first, then
  each running timer fires once for each full period completed, and each firing runs
  \<open>executeCallback\<close>.
\<close>

definition fires :: "nat \<Rightarrow> Timer \<Rightarrow> nat" where
  "fires d t = (timer_elapsed t + d) div max 1 (timer_interval t)"

definition tick :: "nat \<Rightarrow> Timer \<Rightarrow> Timer" where
  "tick d t = t\<lparr>timer_elapsed := (timer_elapsed t + d) mod max 1 (timer_interval t)\<rparr>"

definition run_timeouts :: "(nat \<Rightarrow> string option) \<Rightarrow> Polling \<Rightarrow> Polling" where
  "run_timeouts callback p = fold (run_timeout callback) (timeouts p) (p\<lparr>timeouts := []\<rparr>)"

definition elapse :: "(nat \<Rightarrow> string option) \<Rightarrow> nat \<Rightarrow> Polling \<Rightarrow> Polling" where
  "elapse callback d p =
     (let q = run_timeouts callback p
      in ((executeCallback callback) ^^ (sum_list (map (fires d) (timers q))))
           (q\<lparr>timers := map (tick d) (timers q)\<rparr>))"

text \<open>The cleanup on unmount.\<close>

definition unmount :: "Polling \<Rightarrow> Polling" where
  "unmount p =
     (case intervalRef p of
        Some i \<Rightarrow> clearInterval i p
      | None \<Rightarrow> p)\<lparr>isMountedRef := False\<rparr>"

text \<open>The hook before its first render.\<close>

definition mounting :: Polling where
  "mounting =
     \<lparr>isPolling = False, pollError = None, intervalRef = None, isMountedRef = True,
      onErrorRef = False, timers = [], next_timer_id = 1, timeouts = [], rendered = None,
      calls = 0, reported = []\<rparr>"

text \<open>
  What happens to the hook: a render (React renders again after each change of state),
  a call by the consumer of \<^verbatim>\<open>start\<close>, \<^verbatim>\<open>stop\<close> or \<^verbatim>\<open>restart\<close> as returned by
  the last render, the passing of time, and the unmount.
\<close>

datatype PollEvent =
  Render PollingOptions | Call_start | Call_stop | Call_restart | Elapse nat | Unmount

fun poll_event :: "(nat \<Rightarrow> string option) \<Rightarrow> PollEvent \<Rightarrow> Polling \<Rightarrow> Polling" where
  "poll_event callback (Render opts) p = render opts callback p"
| "poll_event callback Call_start p =
     (case rendered p of Some (opts, r) \<Rightarrow> start opts callback p | None \<Rightarrow> p)"
| "poll_event callback Call_stop p = stop p"
| "poll_event callback Call_restart p =
     (case rendered p of Some (opts, r) \<Rightarrow> restart opts p | None \<Rightarrow> p)"
| "poll_event callback (Elapse d) p = elapse callback d p"
| "poll_event callback Unmount p = unmount p"

subsection \<open>Facts about the controller\<close>

lemma stop_stop: "stop (stop p) = stop p"
  by (simp add: stop_def clearInterval_def split: option.splits)

lemma stop_idle: "intervalRef p = None \<Longrightarrow> \<not> isPolling p \<Longrightarrow> stop p = p"
  by (simp add: stop_def)

lemma start_active: "intervalRef p \<noteq> None \<Longrightarrow> start opts callback p = p"
  by (simp add: start_def)

lemma start_idle:
  assumes "isMountedRef p" and "intervalRef p = None"
  shows "isPolling (start opts callback p)
    \<and> intervalRef (start opts callback p) = Some (next_timer_id p)
    \<and> timers (start opts callback p) =
        timers p @ [\<lparr>timer_id = next_timer_id p, timer_interval = interval opts,
                     timer_elapsed = 0\<rparr>]"
  using assms
  by (simp add: start_def setInterval_def Let_def executeCallback_def split: option.splits)

text \<open>
  The render that follows a \<open>start\<close> undoes it: when the previous render saw
  \<^verbatim>\<open>isPolling\<close> false with the same options and the controller now polls on one
  timer, the ``Handle interval changes'' effect runs \<open>restart\<close>; afterwards no timer
  runs, \<^verbatim>\<open>isPolling\<close> is false and a \<open>start\<close> is pending.
\<close>

lemma render_after_start_restarts:
  assumes "isMountedRef p" and "rendered p = Some (opts, False)" and "isPolling p"
    and "intervalRef p = Some i" and "timers p = [\<lparr>timer_id = i, timer_interval = n, timer_elapsed = e\<rparr>]"
  shows "\<not> isPolling (render opts callback p)
    \<and> intervalRef (render opts callback p) = None
    \<and> timers (render opts callback p) = []
    \<and> timeouts (render opts callback p) = timeouts p @ [opts]"
  using assms
  by (simp add: render_def Let_def auto_start_deps_changed_def interval_deps_changed_def
      restart_def stop_def clearInterval_def)

text \<open>
  The options of the hook's own tests: an interval of 1000 ms, polling enabled from the
  mount with an immediate first call; and the same interval with polling left to the
  consumer.
\<close>

definition immediate_1000 :: PollingOptions where
  "immediate_1000 = \<lparr>interval = 1000, enabled = True, immediate = True, onError = False\<rparr>"

definition manual_1000 :: PollingOptions where
  "manual_1000 = \<lparr>interval = 1000, enabled = False, immediate = False, onError = False\<rparr>"

lemma mount_immediate:
  "fold (poll_event (\<lambda>n. None)) [Render immediate_1000] mounting =
     mounting
       \<lparr>isPolling := True, intervalRef := Some 1,
        timers := [\<lparr>timer_id = 1, timer_interval = 1000, timer_elapsed = 0\<rparr>],
        next_timer_id := 2, rendered := Some (immediate_1000, False), calls := 1\<rparr>"
  by (simp add: mounting_def immediate_1000_def render_def Let_def
      auto_start_deps_changed_def interval_deps_changed_def start_def setInterval_def
      executeCallback_def)

lemma mount_immediate_rerender:
  "fold (poll_event (\<lambda>n. None)) [Render immediate_1000, Render immediate_1000] mounting =
     mounting
       \<lparr>next_timer_id := 2, timeouts := [immediate_1000],
        rendered := Some (immediate_1000, True), calls := 1\<rparr>"
proof -
  have "fold (poll_event (\<lambda>n. None)) [Render immediate_1000, Render immediate_1000] mounting
        = render immediate_1000 (\<lambda>n. None)
            (fold (poll_event (\<lambda>n. None)) [Render immediate_1000] mounting)"
    by simp
  then show ?thesis
    unfolding mount_immediate
    by (simp add: mounting_def immediate_1000_def render_def Let_def
        auto_start_deps_changed_def interval_deps_changed_def restart_def stop_def
        clearInterval_def)
qed

lemma mount_immediate_2500:
  "fold (poll_event (\<lambda>n. None))
     [Render immediate_1000, Render immediate_1000, Elapse 2500] mounting =
     mounting
       \<lparr>isPolling := True, intervalRef := Some 2,
        timers := [\<lparr>timer_id = 2, timer_interval = 1000, timer_elapsed = 500\<rparr>],
        next_timer_id := 3, rendered := Some (immediate_1000, True), calls := 4\<rparr>"
proof -
  have "fold (poll_event (\<lambda>n. None))
          [Render immediate_1000, Render immediate_1000, Elapse 2500] mounting
        = elapse (\<lambda>n. None) 2500
            (fold (poll_event (\<lambda>n. None)) [Render immediate_1000, Render immediate_1000]
               mounting)"
    by simp
  then show ?thesis
    unfolding mount_immediate_rerender
    by (simp add: mounting_def immediate_1000_def elapse_def run_timeouts_def
        run_timeout_def start_def setInterval_def executeCallback_def Let_def fires_def
        tick_def numeral_2_eq_2)
qed

lemma manual_start_stop_resumes:
  "fold (poll_event (\<lambda>n. None))
     [Render manual_1000, Call_start, Render manual_1000, Call_stop, Elapse 1000] mounting =
     mounting
       \<lparr>isPolling := True, intervalRef := Some 2,
        timers := [\<lparr>timer_id = 2, timer_interval = 1000, timer_elapsed = 0\<rparr>],
        next_timer_id := 3, rendered := Some (manual_1000, True), calls := 1\<rparr>"
  by (simp add: mounting_def manual_1000_def render_def Let_def
      auto_start_deps_changed_def interval_deps_changed_def start_def setInterval_def
      executeCallback_def restart_def stop_def clearInterval_def elapse_def
      run_timeouts_def run_timeout_def fires_def tick_def)

lemma rerender_before_timeout_repeats:
  "fold (poll_event (\<lambda>n. None))
     [Render immediate_1000, Render immediate_1000, Render immediate_1000, Elapse 0,
      Render immediate_1000, Render immediate_1000, Elapse 0,
      Render immediate_1000, Render immediate_1000, Elapse 0,
      Render immediate_1000] mounting =
     mounting
       \<lparr>next_timer_id := 5, timeouts := [immediate_1000],
        rendered := Some (immediate_1000, True), calls := 4\<rparr>"
  by (simp add: mounting_def immediate_1000_def render_def Let_def
      auto_start_deps_changed_def interval_deps_changed_def start_def setInterval_def
      executeCallback_def restart_def stop_def clearInterval_def elapse_def
      run_timeouts_def run_timeout_def fires_def tick_def)

text \<open>
  Claim C9. The claim does not hold of the hook. \<open>stop\<close> is idempotent and
  \<open>start\<close> returns at once while a timer is held (lemmas \<open>stop_stop\<close> and
  \<open>start_active\<close>), but \<^verbatim>\<open>isPolling\<close> is a dependency of the ``Handle interval
  changes'' effect, so the render that follows a \<open>start\<close> runs \<open>restart\<close>: the
  timer just created is cleared and a second \<open>start\<close> is scheduled. With an interval
  of 1000 ms, polling enabled and the immediate flag set, the hook polls after its
  mount; after the next render it does not poll, holds no timer and has a \<open>start\<close>
  pending; after 2500 ms the callback has been invoked 4 times, not 3; and when React
  renders again before each pending \<open>start\<close> runs, the callback has been invoked 4
  times before any time has passed, with no timer running. A \<open>stop\<close> called while
  the \<open>start\<close> is pending is undone: 1000 ms later the hook polls again.
\<close>

theorem usePolling_start_is_restarted:
  "isPolling (fold (poll_event (\<lambda>n. None)) [Render immediate_1000] mounting)
   \<and> length (timers (fold (poll_event (\<lambda>n. None)) [Render immediate_1000] mounting)) = 1
   \<and> \<not> isPolling (fold (poll_event (\<lambda>n. None))
          [Render immediate_1000, Render immediate_1000] mounting)
   \<and> timers (fold (poll_event (\<lambda>n. None))
        [Render immediate_1000, Render immediate_1000] mounting) = []
   \<and> timeouts (fold (poll_event (\<lambda>n. None))
        [Render immediate_1000, Render immediate_1000] mounting) = [immediate_1000]
   \<and> calls (fold (poll_event (\<lambda>n. None))
        [Render immediate_1000, Render immediate_1000, Elapse 2500] mounting) = 4
   \<and> calls (fold (poll_event (\<lambda>n. None))
        [Render immediate_1000, Render immediate_1000, Elapse 2500] mounting)
      \<noteq> 2500 div interval immediate_1000 + 1
   \<and> calls (fold (poll_event (\<lambda>n. None))
        [Render immediate_1000, Render immediate_1000, Render immediate_1000, Elapse 0,
         Render immediate_1000, Render immediate_1000, Elapse 0,
         Render immediate_1000, Render immediate_1000, Elapse 0,
         Render immediate_1000] mounting) = 4
   \<and> timers (fold (poll_event (\<lambda>n. None))
        [Render immediate_1000, Render immediate_1000, Render immediate_1000, Elapse 0,
         Render immediate_1000, Render immediate_1000, Elapse 0,
         Render immediate_1000, Render immediate_1000, Elapse 0,
         Render immediate_1000] mounting) = []
   \<and> isPolling (fold (poll_event (\<lambda>n. None))
        [Render manual_1000, Call_start, Render manual_1000, Call_stop, Elapse 1000] mounting)
   \<and> length (timers (fold (poll_event (\<lambda>n. None))
        [Render manual_1000, Call_start, Render manual_1000, Call_stop, Elapse 1000]
        mounting)) = 1"
  unfolding mount_immediate mount_immediate_rerender mount_immediate_2500
    manual_start_stop_resumes rerender_before_timeout_repeats
  by (simp add: mounting_def immediate_1000_def)

end
